theory Spec2Isabelle
  imports Complex_Main "HOL-Library.Log_Nat" "HOL-Library.AList" "HOL-Library.Char_ord" "HOL-Library.List_Lexorder"
    "HOL-Library.Sublist"
begin

section \<open>Python text\<close>

text \<open>
  A Python \<open>str\<close> is a sequence of code points. The model covers the code points
  0..255 (Latin-1), one \<^typ>\<open>char\<close> for each, so \<^const>\<open>length\<close> is Python's \<open>len\<close>
  and \<open>of_char\<close> is Python's \<open>ord\<close>. The character classes below are the ones
  CPython 3 has on this range.
\<close>

datatype py_exception = ValueError | TypeError | AttributeError | OverflowError

definition ord :: "char \<Rightarrow> nat" where
  "ord c = of_char c"

text \<open>\<open>str.isspace\<close> on one code point: TAB..CR, FS..US, space, NEL and NBSP.\<close>

definition isspace :: "char \<Rightarrow> bool" where
  "isspace c = ((9 \<le> ord c \<and> ord c \<le> 13) \<or> (28 \<le> ord c \<and> ord c \<le> 32)
     \<or> ord c = 133 \<or> ord c = 160)"

text \<open>\<open>str.strip()\<close> with no argument removes leading and trailing whitespace.\<close>

definition strip :: "string \<Rightarrow> string" where
  "strip s = rev (dropWhile isspace (rev (dropWhile isspace s)))"

text \<open>
  The whitespace that \<open>int(s)\<close> and \<open>float(s)\<close> skip around a number: the ASCII
  blanks TAB..CR and space, and the two Latin-1 blanks NEL and NBSP (the separators
  FS..US are ASCII, are left as they are and make the text invalid).
\<close>

definition isspace_num :: "char \<Rightarrow> bool" where
  "isspace_num c = ((9 \<le> ord c \<and> ord c \<le> 13) \<or> ord c = 32 \<or> ord c = 133 \<or> ord c = 160)"

definition strip_num :: "string \<Rightarrow> string" where
  "strip_num s = rev (dropWhile isspace_num (rev (dropWhile isspace_num s)))"

text \<open>A decimal digit (Unicode category Nd): on this range only \<open>0\<close>..\<open>9\<close>.\<close>

definition isdecimal_char :: "char \<Rightarrow> bool" where
  "isdecimal_char c = (48 \<le> ord c \<and> ord c \<le> 57)"

definition digit_val :: "char \<Rightarrow> int" where
  "digit_val c = int (ord c) - 48"

text \<open>
  \<open>str.isdigit\<close> also accepts the superscript digits U+00B2, U+00B3 and U+00B9,
  and is false on the empty string.
\<close>

definition isdigit_char :: "char \<Rightarrow> bool" where
  "isdigit_char c = (isdecimal_char c \<or> ord c = 178 \<or> ord c = 179 \<or> ord c = 185)"

definition isdigit :: "string \<Rightarrow> bool" where
  "isdigit s = (s \<noteq> [] \<and> list_all isdigit_char s)"

text \<open>\<open>str.lower\<close>: \<open>A\<close>..\<open>Z\<close> and the Latin-1 capitals U+00C0..U+00DE (not U+00D7).\<close>

definition lower_char :: "char \<Rightarrow> char" where
  "lower_char c = (if (65 \<le> ord c \<and> ord c \<le> 90) \<or> (192 \<le> ord c \<and> ord c \<le> 222 \<and> ord c \<noteq> 215)
     then char_of (ord c + 32) else c)"

definition lower :: "string \<Rightarrow> string" where
  "lower s = map lower_char s"

text \<open>\<open>s.split(sep)\<close> for a separator of one character.\<close>

fun str_split :: "char \<Rightarrow> string \<Rightarrow> string list" where
  "str_split sep [] = [[]]"
| "str_split sep (c # cs) =
     (if c = sep then [] # str_split sep cs
      else (case str_split sep cs of [] \<Rightarrow> [[c]] | p # ps \<Rightarrow> (c # p) # ps))"

text \<open>
  The digits of a number literal: \<open>digit (["_"] digit)*\<close>. The result is the digits
  with the underscores removed, or \<open>None\<close> when the text has another shape.
\<close>

fun digitpart :: "string \<Rightarrow> string option" where
  "digitpart [] = None"
| "digitpart [c] = (if isdecimal_char c then Some [c] else None)"
| "digitpart (c # d # cs) =
     (if \<not> isdecimal_char c then None
      else (case digitpart (if d = CHR ''_'' then cs else d # cs) of
              None \<Rightarrow> None
            | Some ds \<Rightarrow> Some (c # ds)))"

definition int_of_digits :: "string \<Rightarrow> int" where
  "int_of_digits ds = foldl (\<lambda>n c. 10 * n + digit_val c) 0 ds"

text \<open>An optional sign in front of a number: the flag is true for \<open>-\<close>.\<close>

fun take_sign :: "string \<Rightarrow> bool \<times> string" where
  "take_sign [] = (False, [])"
| "take_sign (c # cs) =
     (if c = CHR ''-'' then (True, cs) else if c = CHR ''+'' then (False, cs) else (False, c # cs))"

text \<open>
  \<open>int(s)\<close> on a string, base 10: blanks around, an optional sign, digits. Anything
  else raises ValueError, and so does a number of more than \<open>max_str_digits\<close> digits
  (leading zeros counted, underscores not): CPython's default limit
  \<open>sys.int_info.default_max_str_digits\<close>.
\<close>

definition max_str_digits :: nat where
  "max_str_digits = 4300"

definition int_of_str :: "string \<Rightarrow> py_exception + int" where
  "int_of_str s =
     (let (neg, body) = take_sign (strip_num s)
      in (case digitpart body of
            None \<Rightarrow> Inl ValueError
          | Some ds \<Rightarrow>
              if max_str_digits < length ds then Inl ValueError
              else Inr (if neg then - int_of_digits ds else int_of_digits ds)))"

text \<open>The decimal digits of a natural number, as \<open>str(n)\<close> and \<open>f"{n}"\<close> print them.\<close>

fun digits_of :: "nat \<Rightarrow> string" where
  "digits_of n = (if n < 10 then [char_of (48 + n)] else digits_of (n div 10) @ [char_of (48 + n mod 10)])"

declare digits_of.simps [simp del]

section \<open>Python floats\<close>

text \<open>
  A \<open>float\<close> is an IEEE 754 binary64 value: a sign and a magnitude that is a rational
  number (for the zeros and the finite numbers), an infinity with its sign, or NaN.
  \<open>Finite True 0\<close> is the negative zero.
\<close>

datatype pyfloat = Finite bool rat | Infinity bool | NaN

definition signed :: "bool \<Rightarrow> rat \<Rightarrow> rat" where
  "signed neg x = (if neg then - x else x)"

definition pow2 :: "int \<Rightarrow> rat" where
  "pow2 e = (if 0 \<le> e then 2 ^ nat e else 1 / 2 ^ nat (- e))"

definition pow10 :: "int \<Rightarrow> rat" where
  "pow10 e = (if 0 \<le> e then 10 ^ nat e else 1 / 10 ^ nat (- e))"

text \<open>Rounding to the nearest integer, a tie going to the even neighbour.\<close>

definition round_half_even :: "rat \<Rightarrow> int" where
  "round_half_even x =
     (let f = \<lfloor>x\<rfloor>; r = x - of_int f
      in if r < 1 / 2 then f else if 1 / 2 < r then f + 1 else if even f then f else f + 1)"

text \<open>For \<open>0 < x\<close>, the exponent \<open>e\<close> with \<open>2 ^ e \<le> x < 2 ^ (e + 1)\<close>.\<close>

definition binary_exponent :: "rat \<Rightarrow> int" where
  "binary_exponent x = (if 1 \<le> x then bitlen \<lfloor>x\<rfloor> - 1 else - bitlen (\<lceil>1 / x\<rceil> - 1))"

text \<open>
  The binary64 value nearest to a magnitude \<open>0 \<le> x\<close>, ties to even: 53 significant
  bits, no bit below \<open>2 ^ -1074\<close>, and the infinity from \<open>2 ^ 1024\<close> on.
\<close>

definition round_to_double :: "bool \<Rightarrow> rat \<Rightarrow> pyfloat" where
  "round_to_double neg x =
     (if x = 0 then Finite neg 0
      else (let q = max (binary_exponent x - 52) (- 1074);
                y = of_int (round_half_even (x / pow2 q)) * pow2 q
            in if pow2 1024 \<le> y then Infinity neg else Finite neg y))"

text \<open>
  Addition: the exact sum, rounded; an exact zero sum is negative only for two
  negative operands.
\<close>

fun fadd :: "pyfloat \<Rightarrow> pyfloat \<Rightarrow> pyfloat" where
  "fadd NaN b = NaN"
| "fadd a NaN = NaN"
| "fadd (Infinity s) (Infinity t) = (if s = t then Infinity s else NaN)"
| "fadd (Infinity s) (Finite t y) = Infinity s"
| "fadd (Finite s x) (Infinity t) = Infinity t"
| "fadd (Finite s x) (Finite t y) =
     (let r = signed s x + signed t y
      in if r = 0 then Finite (s \<and> t) 0 else round_to_double (r < 0) \<bar>r\<bar>)"

text \<open>
  The comparisons \<open>a < b\<close>, \<open>a == b\<close> and \<open>a >= b\<close>: all false on NaN, the two
  zeros equal.
\<close>

fun flt :: "pyfloat \<Rightarrow> pyfloat \<Rightarrow> bool" where
  "flt NaN b = False"
| "flt a NaN = False"
| "flt (Infinity s) (Infinity t) = (s \<and> \<not> t)"
| "flt (Infinity s) (Finite t y) = s"
| "flt (Finite s x) (Infinity t) = (\<not> t)"
| "flt (Finite s x) (Finite t y) = (signed s x < signed t y)"

fun feq :: "pyfloat \<Rightarrow> pyfloat \<Rightarrow> bool" where
  "feq NaN b = False"
| "feq a NaN = False"
| "feq (Infinity s) (Infinity t) = (s = t)"
| "feq (Infinity s) (Finite t y) = False"
| "feq (Finite s x) (Infinity t) = False"
| "feq (Finite s x) (Finite t y) = (signed s x = signed t y)"

definition fge :: "pyfloat \<Rightarrow> pyfloat \<Rightarrow> bool" where
  "fge a b = (flt b a \<or> feq a b)"

text \<open>
  \<open>float(s)\<close> on a string. The grammar of the language reference:
  \<open>[sign] (floatnumber | "inf" | "infinity" | "nan")\<close> in any case, blanks around, with
  \<open>floatnumber ::= ([digitpart] "." digitpart | digitpart ["."]) [("e" | "E") [sign] digitpart]\<close>.
  The decimal value is rounded to the nearest binary64.
\<close>

definition digitpart_opt :: "string \<Rightarrow> string option" where
  "digitpart_opt s = (if s = [] then Some [] else digitpart s)"

definition parse_number :: "string \<Rightarrow> (string \<times> string) option" where
  "parse_number m =
     (let ip = takeWhile (\<lambda>c. c \<noteq> CHR ''.'') m; rest = dropWhile (\<lambda>c. c \<noteq> CHR ''.'') m
      in if rest = [] then map_option (\<lambda>ds. (ds, [])) (digitpart ip)
         else if ip = [] \<and> tl rest = [] then None
         else (case (digitpart_opt ip, digitpart_opt (tl rest)) of
                 (Some a, Some b) \<Rightarrow> Some (a, b)
               | _ \<Rightarrow> None))"

definition parse_exponent :: "string \<Rightarrow> int option" where
  "parse_exponent x =
     (let (neg, ds) = take_sign x
      in map_option (\<lambda>d. if neg then - int_of_digits d else int_of_digits d) (digitpart ds))"

definition is_e :: "char \<Rightarrow> bool" where
  "is_e c = (c = CHR ''e'' \<or> c = CHR ''E'')"

definition parse_floatnumber :: "string \<Rightarrow> rat option" where
  "parse_floatnumber body =
     (let m = takeWhile (\<lambda>c. \<not> is_e c) body; rest = dropWhile (\<lambda>c. \<not> is_e c) body
      in (case parse_number m of
            None \<Rightarrow> None
          | Some (a, b) \<Rightarrow>
              (case (if rest = [] then Some 0 else parse_exponent (tl rest)) of
                 None \<Rightarrow> None
               | Some e \<Rightarrow> Some (of_int (int_of_digits (a @ b)) * pow10 (e - int (length b))))))"

definition float_of_str :: "string \<Rightarrow> py_exception + pyfloat" where
  "float_of_str s =
     (let (neg, body) = take_sign (strip_num s)
      in if lower body = ''inf'' \<or> lower body = ''infinity'' then Inr (Infinity neg)
         else if lower body = ''nan'' then Inr NaN
         else (case parse_floatnumber body of
                 None \<Rightarrow> Inl ValueError
               | Some x \<Rightarrow> Inr (round_to_double neg x)))"

text \<open>
  \<open>"{:.2f}".format(a)\<close>: the value rounded to hundredths (ties to even, on the exact
  binary value), printed in fixed-point notation with the sign of \<open>a\<close>.
\<close>

definition digit_char :: "nat \<Rightarrow> char" where
  "digit_char d = char_of (48 + d)"

definition format_2f :: "pyfloat \<Rightarrow> string" where
  "format_2f a =
     (case a of
        NaN \<Rightarrow> ''nan''
      | Infinity neg \<Rightarrow> (if neg then ''-inf'' else ''inf'')
      | Finite neg x \<Rightarrow>
          (let n = nat (round_half_even (x * 100))
           in (if neg then ''-'' else []) @ digits_of (n div 100) @ ''.''
              @ [digit_char (n mod 100 div 10), digit_char (n mod 10)]))"

section \<open>The data model (expenseTracker3.py)\<close>

text \<open>
  \<open>x or y\<close> on text that may be absent: \<open>y\<close> when \<open>x\<close> is \<open>None\<close> or empty. A value is
  true in a condition when it is not \<open>None\<close> and not empty.
\<close>

definition or_str :: "string \<Rightarrow> string \<Rightarrow> string" where
  "or_str x y = (if x = [] then y else x)"

definition or_opt :: "string option \<Rightarrow> string \<Rightarrow> string" where
  "or_opt x y = (case x of None \<Rightarrow> y | Some s \<Rightarrow> or_str s y)"

definition truthy :: "string option \<Rightarrow> bool" where
  "truthy x = (case x of None \<Rightarrow> False | Some s \<Rightarrow> s \<noteq> [])"

text \<open>The dataclass \<open>Expense\<close>; \<open>category\<close> and \<open>description\<close> are \<open>Optional[str]\<close>.\<close>

record Expense =
  date :: string
  category :: "string option"
  amount :: pyfloat
  description :: "string option"

text \<open>
  \<open>Expense.ToKey\<close>. The amount is a float already, so \<open>float(self.amount)\<close> returns
  it as it is.
\<close>

definition ToKey :: "Expense \<Rightarrow> string \<times> string \<times> pyfloat \<times> string" where
  "ToKey self = (date self, or_opt (category self) [], amount self, or_opt (description self) [])"

text \<open>
  A row is a \<open>Dict[str, str]\<close>, kept as an association list in insertion order;
  \<open>dict_get\<close> is \<open>d.get(key, default)\<close>.
\<close>

type_synonym row = "(string \<times> string) list"

definition dict_get :: "('k \<times> 'v) list \<Rightarrow> 'k \<Rightarrow> 'v \<Rightarrow> 'v" where
  "dict_get d k dflt = (case map_of d k of None \<Rightarrow> dflt | Some v \<Rightarrow> v)"


definition FromDict :: "row \<Rightarrow> py_exception + Expense" where
  "FromDict data =
     (let date' = strip (dict_get data ''date'' []);
          category' = or_str (strip (dict_get data ''category'' [])) [];
          amount_raw = strip (or_str (dict_get data ''amount'' ''0'') ''0'');
          description' = or_str (strip (dict_get data ''description'' [])) []
      in (case float_of_str amount_raw of
            Inl e \<Rightarrow> Inl e
          | Inr a \<Rightarrow> Inr \<lparr>date = date', category = Some category', amount = a,
                          description = Some description'\<rparr>))"

section \<open>The storage layer (expenseTracker3.py)\<close>

text \<open>
  A CSV file is absent, or present with the rows \<open>csv.DictReader\<close> yields from it
  until the file ends or reading fails (the handler around the whole read returns the
  expenses collected so far, so both ends look alike). A file that cannot be opened is
  present with no rows.
\<close>

datatype csv_file = Absent | Present "row list"

record ExpenseStorage =
  csv_path :: string

text \<open>
  The loop of \<open>LoadExpensesFromCsv\<close>: a row whose \<open>FromDict\<close> raises ValueError is
  skipped; any other exception ends the read.
\<close>

fun load_rows :: "row list \<Rightarrow> Expense list \<Rightarrow> Expense list" where
  "load_rows [] expenses = expenses"
| "load_rows (r # rows) expenses =
     (case FromDict r of
        Inr expense \<Rightarrow> load_rows rows (expenses @ [expense])
      | Inl ValueError \<Rightarrow> load_rows rows expenses
      | Inl _ \<Rightarrow> expenses)"

definition LoadExpensesFromCsv ::
  "(string \<Rightarrow> csv_file) \<Rightarrow> ExpenseStorage \<Rightarrow> string option \<Rightarrow> Expense list" where
  "LoadExpensesFromCsv fs self path =
     (let target = or_opt path (csv_path self)
      in (case fs target of
            Absent \<Rightarrow> []
          | Present rows \<Rightarrow> load_rows rows []))"

section \<open>Validation (expenseTracker3.py)\<close>

definition isleap :: "int \<Rightarrow> bool" where
  "isleap year = (year mod 4 = 0 \<and> (year mod 100 \<noteq> 0 \<or> year mod 400 = 0))"

definition days_in_month :: "int \<Rightarrow> int \<Rightarrow> int" where
  "days_in_month year month =
     (if month = 2 \<and> isleap year then 29
      else [31, 28, 31, 30, 31, 30, 31, 31, 30, 31, 30, 31] ! nat (month - 1))"

text \<open>
  \<open>datetime(year, month, day)\<close> raises ValueError unless the year is in 1..9999, the
  month in 1..12 and the day in 1..\<open>days_in_month\<close>.
\<close>

definition datetime :: "int \<Rightarrow> int \<Rightarrow> int \<Rightarrow> py_exception + int \<times> int \<times> int" where
  "datetime year month day =
     (if 1 \<le> year \<and> year \<le> 9999 \<and> 1 \<le> month \<and> month \<le> 12
         \<and> 1 \<le> day \<and> day \<le> days_in_month year month
      then Inr (year, month, day) else Inl ValueError)"

definition str_of_int :: "int \<Rightarrow> string" where
  "str_of_int i = (if i < 0 then ''-'' @ digits_of (nat (- i)) else digits_of (nat i))"

text \<open>
  \<open>_ValidateDateStrict\<close>: \<open>Inr None\<close> for a valid date, \<open>Inr (Some message)\<close> for a
  rejected one. The three \<open>int(...)\<close> calls are not inside a \<open>try\<close>, so a ValueError of
  theirs leaves the method as an exception: \<open>Inl\<close>.
\<close>

definition ValidateDateStrict :: "string \<Rightarrow> py_exception + string option" where
  "ValidateDateStrict date_str =
     (if date_str = [] then Inr (Some ''Date is required.'')
      else
        (let parts = str_split CHR ''-'' date_str
         in if length parts \<noteq> 3 \<or> list_ex (\<lambda>p. \<not> isdigit p) parts
            then Inr (Some ''Date must be in YYYY-MM-DD format.'')
            else
              (let y_str = parts ! 0; m_str = parts ! 1; d_str = parts ! 2
               in if \<not> (length y_str = 4 \<and> length m_str = 2 \<and> length d_str = 2)
                  then Inr (Some ''Date must be in YYYY-MM-DD format.'')
                  else
                    (case int_of_str y_str of Inl e \<Rightarrow> Inl e | Inr year \<Rightarrow>
                     (case int_of_str m_str of Inl e \<Rightarrow> Inl e | Inr month \<Rightarrow>
                      (case int_of_str d_str of Inl e \<Rightarrow> Inl e | Inr day \<Rightarrow>
                         if month = 2 \<and> day = 29 \<and> \<not> isleap year
                         then Inr (Some (str_of_int year
                                @ '' is not a leap year; February 29 is invalid.''))
                         else
                           (case datetime year month day of
                              Inl e \<Rightarrow>
                                Inr (Some ''Invalid calendar date (e.g., February 30 doesn't exist).'')
                            | Inr d \<Rightarrow> Inr None)))))))"

definition ValidateExpenseData :: "string \<Rightarrow> string \<Rightarrow> py_exception + string option" where
  "ValidateExpenseData date_str amount_str =
     (case ValidateDateStrict date_str of
        Inl e \<Rightarrow> Inl e
      | Inr date_error \<Rightarrow>
          if truthy date_error then Inr date_error
          else if amount_str = [] then Inr (Some ''Amount is required.'')
          else
            (case float_of_str amount_str of
               Inl e \<Rightarrow> Inr (Some ''Amount must be a valid number.'')
             | Inr amount_value \<Rightarrow>
                 if flt amount_value (Finite False 0) then Inr (Some ''Amount cannot be negative.'')
                 else Inr None))"

section \<open>The tracker (expenseTracker3.py)\<close>

text \<open>
  The methods of \<open>ExpenseTracker\<close> take the list \<open>self.expenses\<close> and return it
  updated, with what they report. What the user types at each \<open>input(...)\<close> is an
  argument.
\<close>

datatype add_result = Added Expense | Rejected string

definition AddExpenseInteractive ::
  "Expense list \<Rightarrow> string \<Rightarrow> string \<Rightarrow> string \<Rightarrow> string
     \<Rightarrow> (py_exception + add_result) \<times> Expense list" where
  "AddExpenseInteractive expenses date_in category_in amount_in description_in =
     (let date_str = strip date_in; category' = strip category_in;
          amount_str = strip amount_in; description' = strip description_in
      in (case ValidateExpenseData date_str amount_str of
            Inl e \<Rightarrow> (Inl e, expenses)
          | Inr error \<Rightarrow>
              if truthy error then (Inr (Rejected (the error)), expenses)
              else
                (case float_of_str amount_str of
                   Inl e \<Rightarrow> (Inl e, expenses)
                 | Inr amount_value \<Rightarrow>
                     (let expense = \<lparr>date = date_str, category = Some (or_str category' []),
                                      amount = amount_value,
                                      description = Some (or_str description' [])\<rparr>
                      in (Inr (Added expense), expenses @ [expense])))))"

datatype delete_result = NoExpenses | NotAnInteger | InvalidNumber | Deleted Expense

text \<open>\<open>xs.pop(i)\<close> for an index in range: the element and the list without it.\<close>

definition pop :: "'a list \<Rightarrow> nat \<Rightarrow> 'a \<times> 'a list" where
  "pop xs i = (xs ! i, take i xs @ drop (Suc i) xs)"

text \<open>
  The listing at the start of \<open>DeleteExpense\<close>: the lines it prints, one for each
  expense, numbered from \<open>idx\<close>. The call of \<open>ValidateExpenseData\<close> is not inside a
  \<open>try\<close>, so an exception of it ends the listing and the method. \<open>str(exp.amount)\<close>,
  the shortest text that reads back as the float, is the parameter \<open>str_of_float\<close>.
\<close>

definition shown_or_none :: "string option \<Rightarrow> string" where
  "shown_or_none x =
     (case x of
        None \<Rightarrow> ''(none)''
      | Some s \<Rightarrow> if s \<noteq> [] \<and> strip s \<noteq> [] then s else ''(none)'')"

fun list_current :: "(pyfloat \<Rightarrow> string) \<Rightarrow> int \<Rightarrow> Expense list \<Rightarrow> py_exception + string list" where
  "list_current str_of_float idx [] = Inr []"
| "list_current str_of_float idx (exp' # rest) =
     (case ValidateExpenseData (date exp') (str_of_float (amount exp')) of
        Inl e \<Rightarrow> Inl e
      | Inr err \<Rightarrow>
          (case list_current str_of_float (idx + 1) rest of
             Inl e \<Rightarrow> Inl e
           | Inr lines \<Rightarrow>
               Inr ((if truthy err
                     then ''Skipping invalid entry #'' @ str_of_int idx @ '': '' @ or_opt err []
                     else str_of_int idx @ ''. '' @ date exp' @ '' | ''
                          @ shown_or_none (category exp') @ '' | $'' @ format_2f (amount exp')
                          @ '' | '' @ shown_or_none (description exp'))
                    # lines)))"

text \<open>
  \<open>DeleteExpense\<close>: nothing to delete on an empty list; then the listing; then the
  typed number, read inside the \<open>try\<close> that turns a ValueError of \<open>int\<close> into a message.
\<close>

definition DeleteExpense ::
  "(pyfloat \<Rightarrow> string) \<Rightarrow> Expense list \<Rightarrow> string
     \<Rightarrow> (py_exception + delete_result) \<times> Expense list" where
  "DeleteExpense str_of_float expenses typed =
     (if expenses = [] then (Inr NoExpenses, expenses)
      else
        (case list_current str_of_float 1 expenses of
           Inl e \<Rightarrow> (Inl e, expenses)
         | Inr lines \<Rightarrow>
             (case int_of_str (strip typed) of
                Inl e \<Rightarrow> (Inr NotAnInteger, expenses)
              | Inr index \<Rightarrow>
                  if index < 1 \<or> int (length expenses) < index
                  then (Inr InvalidNumber, expenses)
                  else (let (removed, rest) = pop expenses (nat (index - 1))
                        in (Inr (Deleted removed), rest)))))"

text \<open>
  \<open>ImportExpensesFromCsv\<close>. The set \<open>existing_keys\<close> is kept as the list of its
  keys; \<open>key_eq\<close> is the equality of two key tuples (floats compared by \<open>==\<close>, the
  amounts of the imported records being fresh objects), \<open>key_in\<close> is \<open>in\<close>.
\<close>

definition key_eq ::
  "string \<times> string \<times> pyfloat \<times> string \<Rightarrow> string \<times> string \<times> pyfloat \<times> string \<Rightarrow> bool" where
  "key_eq k k' =
     (case (k, k') of
        ((d, c, a, s), (d', c', a', s')) \<Rightarrow> d = d' \<and> c = c' \<and> feq a a' \<and> s = s')"

definition key_in ::
  "string \<times> string \<times> pyfloat \<times> string \<Rightarrow> (string \<times> string \<times> pyfloat \<times> string) list \<Rightarrow> bool" where
  "key_in k keys = list_ex (key_eq k) keys"

text \<open>The loop over \<open>imported\<close>, on the state (\<open>self.expenses\<close>, \<open>existing_keys\<close>, \<open>added\<close>).\<close>

fun merge_loop ::
  "Expense list \<Rightarrow> Expense list \<times> (string \<times> string \<times> pyfloat \<times> string) list \<times> nat
     \<Rightarrow> Expense list \<times> (string \<times> string \<times> pyfloat \<times> string) list \<times> nat" where
  "merge_loop [] st = st"
| "merge_loop (e # imported) (expenses, existing_keys, added) =
     (if \<not> key_in (ToKey e) existing_keys
      then merge_loop imported (expenses @ [e], existing_keys @ [ToKey e], added + 1)
      else merge_loop imported (expenses, existing_keys, added))"

text \<open>Lines 298 to 305: the merge of the imported records into \<open>self.expenses\<close>.\<close>

definition merge_imported :: "Expense list \<Rightarrow> Expense list \<Rightarrow> Expense list \<times> nat" where
  "merge_imported expenses imported =
     (case merge_loop imported (expenses, map ToKey expenses, 0) of
        (expenses', existing_keys, added) \<Rightarrow> (expenses', added))"

datatype import_result = NoPath | NothingToImport | Imported nat nat nat

definition ImportExpensesFromCsv ::
  "(string \<Rightarrow> csv_file) \<Rightarrow> ExpenseStorage \<Rightarrow> Expense list \<Rightarrow> string
     \<Rightarrow> import_result \<times> Expense list" where
  "ImportExpensesFromCsv fs storage expenses path_in =
     (let path = strip path_in
      in if path = [] then (NoPath, expenses)
         else
           (let imported = LoadExpensesFromCsv fs storage (Some path)
            in if imported = [] then (NothingToImport, expenses)
               else (case merge_imported expenses imported of
                       (expenses', added) \<Rightarrow>
                         (Imported (length imported) added (length expenses'), expenses'))))"

text \<open>
  \<open>CalculateTotalExpenses\<close>. \<open>float(exp.amount)\<close> does not raise on a float, so no
  entry takes the \<open>except\<close> branch.
\<close>

definition CalculateTotalExpenses :: "Expense list \<Rightarrow> pyfloat" where
  "CalculateTotalExpenses expenses = foldl (\<lambda>total exp'. fadd total (amount exp')) (Finite False 0) expenses"

text \<open>
  \<open>CategorizeExpenseReport\<close>: the lines it prints, as pairs of label and total. The
  dict \<open>category_totals\<close> is an association list in insertion order, and \<open>sorted\<close> is the
  stable sort by the lowered label.
\<close>

definition category_key :: "Expense \<Rightarrow> string" where
  "category_key exp' = or_str (strip (or_opt (category exp') [])) ''Uncategorized''"

definition add_to_category :: "(string \<times> pyfloat) list \<Rightarrow> Expense \<Rightarrow> (string \<times> pyfloat) list" where
  "add_to_category category_totals exp' =
     (let amt = amount exp'; key = category_key exp'
      in AList.update key (fadd (dict_get category_totals key (Finite False 0)) amt) category_totals)"

definition CategorizeExpenseReport :: "Expense list \<Rightarrow> (string \<times> pyfloat) list" where
  "CategorizeExpenseReport expenses =
     (if expenses = [] then []
      else sort_key (\<lambda>x. lower (fst x)) (foldl add_to_category [] expenses))"

section \<open>The final version (expenseTrackerFinal.py)\<close>

text \<open>Its class \<open>Expense\<close> has the same four attributes, none of them optional.\<close>

record Expense_final =
  f_date :: string
  f_category :: string
  f_amount :: pyfloat
  f_description :: string


text \<open>
  \<open>fromDict\<close> returns \<open>None\<close> on an empty dict. The default of the amount is the float
  \<open>0.0\<close>, which \<open>float\<close> returns as it is.
\<close>

definition fromDict :: "row \<Rightarrow> py_exception + Expense_final option" where
  "fromDict d =
     (if d = [] then Inr None
      else
        (case (case map_of d ''amount'' of None \<Rightarrow> Inr (Finite False 0) | Some v \<Rightarrow> float_of_str v) of
           Inl e \<Rightarrow> Inl e
         | Inr a \<Rightarrow> Inr (Some \<lparr>f_date = dict_get d ''date'' [], f_category = dict_get d ''category'' [],
                                f_amount = a, f_description = dict_get d ''description'' []\<rparr>)))"

record ExpenseStorage_final =
  filePath :: string

text \<open>The loop of \<open>loadFromCsv\<close>: the bare \<open>except\<close> skips a row on any exception.\<close>

fun load_rows_final :: "row list \<Rightarrow> Expense_final list \<Rightarrow> Expense_final list" where
  "load_rows_final [] data = data"
| "load_rows_final (r # rows) data =
     (case fromDict r of
        Inr (Some ex) \<Rightarrow> load_rows_final rows (data @ [ex])
      | Inr None \<Rightarrow> load_rows_final rows data
      | Inl e \<Rightarrow> load_rows_final rows data)"

definition loadFromCsv :: "(string \<Rightarrow> csv_file) \<Rightarrow> ExpenseStorage_final \<Rightarrow> Expense_final list" where
  "loadFromCsv fs self =
     (case fs (filePath self) of
        Absent \<Rightarrow> []
      | Present rows \<Rightarrow> load_rows_final rows [])"

text \<open>
  The budget file: absent, unreadable (\<open>open\<close> or \<open>json.load\<close> raises), a JSON document
  that is not an object, or an object with its members. A member is a float, an
  integer, a string, a boolean, or something \<open>float\<close> rejects with TypeError.
\<close>

datatype json_value = JFloat pyfloat | JInt int | JString string | JBool bool | JOther

datatype budget_file = NoBudgetFile | Unreadable | NotAnObject | JObject "(string \<times> json_value) list"

definition float_of_json :: "json_value \<Rightarrow> py_exception + pyfloat" where
  "float_of_json v =
     (case v of
        JFloat x \<Rightarrow> Inr x
      | JInt i \<Rightarrow>
          (case round_to_double (i < 0) \<bar>of_int i\<bar> of
             Infinity s \<Rightarrow> Inl OverflowError
           | x \<Rightarrow> Inr x)
      | JString s \<Rightarrow> float_of_str s
      | JBool b \<Rightarrow> Inr (Finite False (if b then 1 else 0))
      | JOther \<Rightarrow> Inl TypeError)"

record BudgetManager =
  budgetFile :: string
  monthlyBudget :: pyfloat

text \<open>\<open>BudgetManager.__init__\<close>: the budget starts at \<open>0.0\<close>.\<close>

definition BudgetManager_init :: "string \<Rightarrow> BudgetManager" where
  "BudgetManager_init file = \<lparr>budgetFile = file, monthlyBudget = Finite False 0\<rparr>"

text \<open>\<open>loadBudget\<close>: every exception of the read is caught and leaves the budget as it was.\<close>

definition loadBudget :: "(string \<Rightarrow> budget_file) \<Rightarrow> BudgetManager \<Rightarrow> BudgetManager" where
  "loadBudget fs self =
     (case fs (budgetFile self) of
        NoBudgetFile \<Rightarrow> self
      | Unreadable \<Rightarrow> self
      | NotAnObject \<Rightarrow> self
      | JObject info \<Rightarrow>
          (case float_of_json (dict_get info ''monthly_budget'' (JInt 0)) of
             Inl e \<Rightarrow> self
           | Inr x \<Rightarrow> self\<lparr>monthlyBudget := x\<rparr>))"

section \<open>Example data\<close>

definition lunch :: Expense where
  "lunch = \<lparr>date = ''2024-01-05'', category = Some ''Food'', amount = Finite False 10,
             description = Some ''lunch''\<rparr>"

definition snack :: Expense where
  "snack = \<lparr>date = ''2024-01-06'', category = Some '' food '', amount = Finite False 5,
             description = Some ''snack''\<rparr>"

definition misc :: Expense where
  "misc = \<lparr>date = ''2024-01-07'', category = Some [], amount = Finite False 3,
            description = None\<rparr>"

text \<open>
  A date text that starts with four times U+00B2 (superscript two), the row of a CSV
  file that holds it, and the expense \<open>FromDict\<close> makes of the row.
\<close>

definition superscript_date :: string where
  "superscript_date = [CHR 0xB2, CHR 0xB2, CHR 0xB2, CHR 0xB2] @ ''-01-05''"

definition superscript_row :: row where
  "superscript_row = [(''date'', superscript_date), (''category'', ''Food''), (''amount'', ''10''),
     (''description'', ''x'')]"

definition superscript_expense :: Expense where
  "superscript_expense = \<lparr>date = superscript_date, category = Some ''Food'',
     amount = Finite False 10, description = Some ''x''\<rparr>"

section \<open>Collections built by entry\<close>

text \<open>
  The lists \<open>self.expenses\<close> that a tracker started empty can hold when only
  \<open>AddExpenseInteractive\<close> and \<open>DeleteExpense\<close> have run.
\<close>

inductive entered :: "Expense list \<Rightarrow> bool" where
  entered_start: "entered []"
| entered_add:
    "entered expenses \<Longrightarrow>
     AddExpenseInteractive expenses date_in category_in amount_in description_in = (r, expenses') \<Longrightarrow>
     entered expenses'"
| entered_delete:
    "entered expenses \<Longrightarrow> DeleteExpense str_of_float expenses typed = (r, expenses') \<Longrightarrow>
     entered expenses'"

section \<open>Amounts that add without rounding\<close>

text \<open>
  The amount of \<open>n\<close> units of \<open>2 ^ q\<close>: a whole number for \<open>q = 0\<close>, a number of
  quarters for \<open>q = -2\<close>. \<open>magnitude\<close> is the absolute value of a finite float.
\<close>

definition units :: "int \<Rightarrow> nat \<Rightarrow> pyfloat" where
  "units q n = Finite False (of_nat n * pow2 q)"

definition magnitude :: "pyfloat \<Rightarrow> rat" where
  "magnitude a = (case a of Finite s x \<Rightarrow> x | Infinity s \<Rightarrow> 0 | NaN \<Rightarrow> 0)"

text \<open>
  The sum of the subtotals of a report, added one after the other as
  \<open>CalculateTotalExpenses\<close> adds the amounts.
\<close>

definition sum_subtotals :: "(string \<times> pyfloat) list \<Rightarrow> pyfloat" where
  "sum_subtotals report = foldl fadd (Finite False 0) (map snd report)"

text \<open>Three expenses of 0.1, 0.1 and 0.4, the floats that \<open>float\<close> makes of these texts.\<close>

definition coffee :: Expense where
  "coffee = \<lparr>date = ''2024-01-05'', category = Some ''Food'',
              amount = Finite False (3602879701896397 / 36028797018963968),
              description = Some ''coffee''\<rparr>"

definition bus :: Expense where
  "bus = \<lparr>date = ''2024-01-05'', category = Some ''Travel'',
           amount = Finite False (3602879701896397 / 36028797018963968),
           description = Some ''bus''\<rparr>"

definition bread :: Expense where
  "bread = \<lparr>date = ''2024-01-06'', category = Some ''Food'',
             amount = Finite False (3602879701896397 / 9007199254740992),
             description = Some ''bread''\<rparr>"

text \<open>The three expenses of the scenario: 12.50, 7.25 and 100.00.\<close>

definition jan5 :: Expense where
  "jan5 = \<lparr>date = ''2024-01-05'', category = Some ''Food'', amount = Finite False (25 / 2),
            description = Some []\<rparr>"

definition jan6 :: Expense where
  "jan6 = \<lparr>date = ''2024-01-06'', category = Some ''Travel'', amount = Finite False (29 / 4),
            description = Some []\<rparr>"

definition jan7 :: Expense where
  "jan7 = \<lparr>date = ''2024-01-07'', category = Some ''Food'', amount = Finite False 100,
            description = Some []\<rparr>"

section \<open>Rounding to two decimal places\<close>



section \<open>Evaluating numbers in text\<close>

lemma floor_rat_numeral: "\<lfloor>numeral a / numeral b :: rat\<rfloor> = numeral a div numeral b"
  by (metis floor_divide_of_int_eq of_int_numeral)

lemma floor_rat_one_numeral: "\<lfloor>1 / numeral b :: rat\<rfloor> = 1 div numeral b"
  by (metis floor_divide_of_int_eq of_int_numeral of_int_1)

lemma ceiling_rat_numeral: "\<lceil>numeral a / numeral b :: rat\<rceil> = - (- numeral a div numeral b)"
  using ceiling_divide_eq_div [of "numeral a" "numeral b", where ?'a = rat] by simp

lemmas float_eval =
  float_of_str_def strip_num_def isspace_num_def ord_def lower_def lower_char_def
  parse_floatnumber_def parse_number_def parse_exponent_def is_e_def digitpart_opt_def
  isdecimal_char_def int_of_digits_def digit_val_def pow10_def round_to_double_def
  binary_exponent_def compute_bitlen pow2_def round_half_even_def Let_def
  floor_rat_numeral floor_rat_one_numeral ceiling_rat_numeral

lemma float_of_str_empty: "float_of_str [] = Inl ValueError"
  by (simp add: float_eval)

lemma float_of_str_10: "float_of_str ''10'' = Inr (Finite False 10)"
  by (simp add: float_eval)

lemma float_of_str_0: "float_of_str ''0'' = Inr (Finite False 0)"
  by (simp add: float_eval)

lemma float_of_str_minus_cent:
  "float_of_str ''-0.01'' = Inr (Finite True (5764607523034235 / 576460752303423488))"
  by (simp add: float_eval)

lemma float_of_str_minus_5: "float_of_str ''-5'' = Inr (Finite True 5)"
  by (simp add: float_eval)

lemma float_of_str_minus_0: "float_of_str ''-0.0'' = Inr (Finite True 0)"
  by (simp add: float_eval)

lemma date_2024_02_29: "ValidateDateStrict ''2024-02-29'' = Inr None"
  by code_simp

lemma date_2023_02_29:
  "ValidateDateStrict ''2023-02-29'' = Inr (Some ''2023 is not a leap year; February 29 is invalid.'')"
  by code_simp

lemma date_2023_02_30:
  "ValidateDateStrict ''2023-02-30''
     = Inr (Some ''Invalid calendar date (e.g., February 30 doesn't exist).'')"
  by code_simp

lemma date_2024_01_05: "ValidateDateStrict ''2024-01-05'' = Inr None"
  by code_simp

section \<open>Deleting by display index\<close>

lemma int_of_str_small:
  "int_of_str ''0'' = Inr 0" "int_of_str ''1'' = Inr 1" "int_of_str ''4'' = Inr 4"
  by code_simp+

lemma strip_small:
  "strip ''0'' = ''0''" "strip ''1'' = ''1''" "strip ''4'' = ''4''"
  by code_simp+

text \<open>
  \<open>ValidateExpenseData\<close> raises exactly when the date check raises: what \<open>float\<close>
  raises on the amount text is caught and becomes a message.
\<close>

lemma validate_raises:
  "ValidateDateStrict d = Inl e \<Longrightarrow> ValidateExpenseData d a = Inl e"
  by (simp add: ValidateExpenseData_def)

lemma validate_returns:
  "ValidateDateStrict d = Inr r \<Longrightarrow> \<exists>err. ValidateExpenseData d a = Inr err"
  by (simp add: ValidateExpenseData_def split: sum.splits)

lemma list_current_returns:
  assumes "\<forall>e \<in> set es. \<exists>r. ValidateDateStrict (date e) = Inr r"
  shows "\<exists>lines. list_current str_of_float idx es = Inr lines"
  using assms
proof (induction es arbitrary: idx)
  case Nil
  show ?case by simp
next
  case (Cons e es)
  obtain r where "ValidateDateStrict (date e) = Inr r" using Cons.prems by auto
  then obtain err where "ValidateExpenseData (date e) (str_of_float (amount e)) = Inr err"
    using validate_returns by blast
  moreover obtain lines where "list_current str_of_float (idx + 1) es = Inr lines"
    using Cons.IH [of "idx + 1"] Cons.prems by auto
  ultimately show ?case by simp
qed

text \<open>
  What \<open>DeleteExpense\<close> does when the listing does not raise, that is when the date
  check raises on no record of the list: it leaves the list as it is, and deletes
  nothing, when the typed text is not an integer or the integer is below 1 or above
  the number of records; otherwise it removes and reports the record at that display
  index, the records before it keep their place and every later record moves one
  place down.
\<close>

lemma delete_cases:
  assumes listed: "\<forall>e \<in> set expenses. \<exists>r. ValidateDateStrict (date e) = Inr r"
  shows "(\<forall>e. int_of_str (strip typed) = Inl e \<longrightarrow>
      snd (DeleteExpense str_of_float expenses typed) = expenses
      \<and> (\<forall>r. fst (DeleteExpense str_of_float expenses typed) \<noteq> Inr (Deleted r)))
   \<and> (\<forall>index. int_of_str (strip typed) = Inr index
          \<and> (index < 1 \<or> int (length expenses) < index) \<longrightarrow>
      snd (DeleteExpense str_of_float expenses typed) = expenses
      \<and> (\<forall>r. fst (DeleteExpense str_of_float expenses typed) \<noteq> Inr (Deleted r)))
   \<and> (\<forall>index. int_of_str (strip typed) = Inr index
          \<and> 1 \<le> index \<and> index \<le> int (length expenses) \<longrightarrow>
      fst (DeleteExpense str_of_float expenses typed) = Inr (Deleted (expenses ! nat (index - 1)))
      \<and> length (snd (DeleteExpense str_of_float expenses typed)) = length expenses - 1
      \<and> (\<forall>j. j < nat (index - 1) \<longrightarrow>
            snd (DeleteExpense str_of_float expenses typed) ! j = expenses ! j)
      \<and> (\<forall>j. nat (index - 1) \<le> j \<and> j < length expenses - 1 \<longrightarrow>
            snd (DeleteExpense str_of_float expenses typed) ! j = expenses ! Suc j))"
proof -
  obtain lines where lines: "list_current str_of_float 1 expenses = Inr lines"
    using list_current_returns [OF listed] by blast
  have bad: "snd (DeleteExpense str_of_float expenses typed) = expenses
      \<and> (\<forall>r. fst (DeleteExpense str_of_float expenses typed) \<noteq> Inr (Deleted r))"
    if "int_of_str (strip typed) = Inl e" for e
    using that lines by (simp add: DeleteExpense_def)
  have outside: "snd (DeleteExpense str_of_float expenses typed) = expenses
      \<and> (\<forall>r. fst (DeleteExpense str_of_float expenses typed) \<noteq> Inr (Deleted r))"
    if "int_of_str (strip typed) = Inr index" "index < 1 \<or> int (length expenses) < index"
    for index
    using that lines by (auto simp add: DeleteExpense_def)
  have inside: "fst (DeleteExpense str_of_float expenses typed)
        = Inr (Deleted (expenses ! nat (index - 1)))
      \<and> length (snd (DeleteExpense str_of_float expenses typed)) = length expenses - 1
      \<and> (\<forall>j. j < nat (index - 1) \<longrightarrow>
            snd (DeleteExpense str_of_float expenses typed) ! j = expenses ! j)
      \<and> (\<forall>j. nat (index - 1) \<le> j \<and> j < length expenses - 1 \<longrightarrow>
            snd (DeleteExpense str_of_float expenses typed) ! j = expenses ! Suc j)"
    if i: "int_of_str (strip typed) = Inr index" and lo: "1 \<le> index"
      and hi: "index \<le> int (length expenses)"
    for index
  proof -
    define k where "k = nat (index - 1)"
    have k: "k < length expenses" using lo hi by (simp add: k_def)
    then have ne: "expenses \<noteq> []" by auto
    have res: "DeleteExpense str_of_float expenses typed
        = (Inr (Deleted (expenses ! k)), take k expenses @ drop (Suc k) expenses)"
      using i lo hi ne lines by (simp add: DeleteExpense_def pop_def k_def)
    have len: "length (take k expenses @ drop (Suc k) expenses) = length expenses - 1"
      using k by simp
    have before: "(take k expenses @ drop (Suc k) expenses) ! j = expenses ! j" if "j < k" for j
      using that k by (simp add: nth_append)
    have after: "(take k expenses @ drop (Suc k) expenses) ! j = expenses ! Suc j"
      if "k \<le> j" "j < length expenses - 1" for j
      using that k by (simp add: nth_append min_def)
    show ?thesis
      unfolding res k_def [symmetric] using len before after by simp
  qed
  show ?thesis using bad outside inside by blast
qed

text \<open>
  On the ledger of the three example expenses, whose dates are valid: \<open>0\<close> and \<open>4\<close> are
  rejected and \<open>1\<close> removes the first record, so that the second becomes the first.
\<close>

lemma example_dates:
  "ValidateDateStrict (date lunch) = Inr None" "ValidateDateStrict (date snack) = Inr None"
  "ValidateDateStrict (date misc) = Inr None"
  by (simp_all add: lunch_def snack_def misc_def) code_simp+

lemma delete_examples:
  "DeleteExpense str_of_float [lunch, snack, misc] ''0'' = (Inr InvalidNumber, [lunch, snack, misc])"
  "DeleteExpense str_of_float [lunch, snack, misc] ''4'' = (Inr InvalidNumber, [lunch, snack, misc])"
  "DeleteExpense str_of_float [lunch, snack, misc] ''1'' = (Inr (Deleted lunch), [snack, misc])"
proof -
  obtain lines where lines: "list_current str_of_float 1 [lunch, snack, misc] = Inr lines"
    using list_current_returns [of "[lunch, snack, misc]" str_of_float 1] example_dates by auto
  show "DeleteExpense str_of_float [lunch, snack, misc] ''0''
      = (Inr InvalidNumber, [lunch, snack, misc])"
    by (simp add: DeleteExpense_def lines int_of_str_small strip_small del: list_current.simps)
  show "DeleteExpense str_of_float [lunch, snack, misc] ''4''
      = (Inr InvalidNumber, [lunch, snack, misc])"
    by (simp add: DeleteExpense_def lines int_of_str_small strip_small del: list_current.simps)
  show "DeleteExpense str_of_float [lunch, snack, misc] ''1''
      = (Inr (Deleted lunch), [snack, misc])"
    by (simp add: DeleteExpense_def lines pop_def int_of_str_small strip_small
        del: list_current.simps)
qed

lemma superscript_date_raises: "ValidateDateStrict superscript_date = Inl ValueError"
  by code_simp

lemma strip_superscript:
  "strip superscript_date = superscript_date" "strip ''x'' = ''x''"
  "strip ''Food'' = ''Food''" "strip ''10'' = ''10''"
  by code_simp+

text \<open>
  Claim C6 at a ledger that holds an expense loaded from a CSV row whose date starts
  with four times U+00B2. \<open>FromDict\<close> keeps the date as it is. The listing at the start
  of \<open>DeleteExpense\<close> validates every expense outside the \<open>try\<close>; on this date
  \<open>str.isdigit\<close> passes, \<open>int\<close> raises ValueError, and the method ends with the
  exception before it asks for a number: with \<open>1\<close>, \<open>0\<close> or \<open>4\<close> typed, nothing is
  removed and nothing is rejected.
\<close>

theorem delete_raises_on_superscript_date:
  "LoadExpensesFromCsv (\<lambda>p. Present [superscript_row]) \<lparr>csv_path = ''expenses.csv''\<rparr> None
     = [superscript_expense]
   \<and> DeleteExpense str_of_float [superscript_expense, lunch, snack] ''1''
       = (Inl ValueError, [superscript_expense, lunch, snack])
   \<and> DeleteExpense str_of_float [superscript_expense, lunch, snack] ''0''
       = (Inl ValueError, [superscript_expense, lunch, snack])
   \<and> DeleteExpense str_of_float [superscript_expense, lunch, snack] ''4''
       = (Inl ValueError, [superscript_expense, lunch, snack])
   \<and> DeleteExpense str_of_float [lunch, snack, superscript_expense] ''1''
       = (Inl ValueError, [lunch, snack, superscript_expense])"
proof -
  have loaded: "LoadExpensesFromCsv (\<lambda>p. Present [superscript_row])
      \<lparr>csv_path = ''expenses.csv''\<rparr> None = [superscript_expense]"
    by (simp add: LoadExpensesFromCsv_def FromDict_def superscript_row_def dict_get_def
        or_opt_def or_str_def strip_superscript float_of_str_10
        superscript_expense_def)
  have raises: "ValidateExpenseData (date superscript_expense) a = Inl ValueError" for a
    by (simp add: superscript_expense_def validate_raises superscript_date_raises)
  have first: "list_current str_of_float 1 (superscript_expense # es) = Inl ValueError" for es
    by (simp add: raises)
  obtain e1 where e1: "ValidateExpenseData (date lunch) (str_of_float (amount lunch)) = Inr e1"
    using validate_returns [OF example_dates(1)] by blast
  obtain e2 where e2: "ValidateExpenseData (date snack) (str_of_float (amount snack)) = Inr e2"
    using validate_returns [OF example_dates(2)] by blast
  have last: "list_current str_of_float 1 [lunch, snack, superscript_expense] = Inl ValueError"
    by (simp add: e1 e2 raises)
  show ?thesis
    using loaded first last by (simp add: DeleteExpense_def del: list_current.simps)
qed

theorem delete_raises_on_superscript_date_witness:
  "fst (DeleteExpense format_2f [superscript_expense, lunch, snack] ''1'') = Inl ValueError
   \<and> snd (DeleteExpense format_2f [superscript_expense, lunch, snack] ''1'')
       = [superscript_expense, lunch, snack]"
  using delete_raises_on_superscript_date [of format_2f] by simp

section \<open>A missing store\<close>

text \<open>
  Claim C9. When the CSV file does not exist, \<open>loadFromCsv\<close> (and
  \<open>LoadExpensesFromCsv\<close> of expenseTracker3.py) returns the empty list. When the
  budget file does not exist, \<open>loadBudget\<close> leaves the manager as it is, so the budget
  of a newly made manager stays at its default \<open>0.0\<close>. Neither raises.
\<close>

theorem missing_store_defaults:
  "(fs (filePath storage) = Absent \<longrightarrow> loadFromCsv fs storage = [])
   \<and> (fs (or_opt path (csv_path storage3)) = Absent \<longrightarrow>
        LoadExpensesFromCsv fs storage3 path = [])
   \<and> (bfs (budgetFile mgr) = NoBudgetFile \<longrightarrow> loadBudget bfs mgr = mgr)
   \<and> (bfs file = NoBudgetFile \<longrightarrow>
        monthlyBudget (loadBudget bfs (BudgetManager_init file)) = Finite False 0)"
  by (simp add: loadFromCsv_def LoadExpensesFromCsv_def loadBudget_def BudgetManager_init_def)

theorem missing_store_defaults_witness:
  "(\<lambda>p. Absent) (filePath \<lparr>filePath = ''expenses.csv''\<rparr>) = Absent
   \<and> loadFromCsv (\<lambda>p. Absent) \<lparr>filePath = ''expenses.csv''\<rparr> = []
   \<and> LoadExpensesFromCsv (\<lambda>p. Absent) \<lparr>csv_path = ''expenses.csv''\<rparr> None = []
   \<and> monthlyBudget (loadBudget (\<lambda>p. NoBudgetFile) (BudgetManager_init ''budget.json''))
       = Finite False 0"
  using missing_store_defaults [of "\<lambda>p. Absent" "\<lparr>filePath = ''expenses.csv''\<rparr>" None
      "\<lparr>csv_path = ''expenses.csv''\<rparr>" "\<lambda>p. NoBudgetFile"
      "BudgetManager_init ''budget.json''" "''budget.json''"]
  by (simp add: BudgetManager_init_def)

section \<open>Validation of the date and the amount\<close>

text \<open>
  Claim C2. February 29 of the leap year 2024 is accepted; February 29 of 2023 is
  rejected with the message about the leap year, which the check placed before the
  calendar check produces; February 30 of 2023 is rejected with the message of the
  calendar check. The two messages differ.
\<close>

theorem leap_year_rules:
  "ValidateExpenseData ''2024-02-29'' ''10'' = Inr None
   \<and> ValidateExpenseData ''2023-02-29'' ''10''
       = Inr (Some ''2023 is not a leap year; February 29 is invalid.'')
   \<and> ValidateExpenseData ''2023-02-30'' ''10''
       = Inr (Some ''Invalid calendar date (e.g., February 30 doesn't exist).'')
   \<and> ''2023 is not a leap year; February 29 is invalid.''
       \<noteq> ''Invalid calendar date (e.g., February 30 doesn't exist).''"
  by (simp add: ValidateExpenseData_def truthy_def date_2024_02_29 date_2023_02_29
      date_2023_02_30 float_of_str_10 signed_def)

theorem leap_year_rules_witness:
  "ValidateExpenseData ''2024-02-29'' ''10'' = Inr None
   \<and> ValidateExpenseData ''2023-02-29'' ''10'' \<noteq> ValidateExpenseData ''2023-02-30'' ''10''"
  using leap_year_rules by simp

text \<open>
  Claim C8. For every date text that \<open>_ValidateDateStrict\<close> accepts, the amount
  \<open>-0.01\<close> is rejected as negative and the amount \<open>0\<close> is accepted. More generally every
  amount text whose value is below zero is rejected with that message, and every
  amount text whose value is zero is accepted.
\<close>

theorem negative_and_zero_amount:
  assumes "ValidateDateStrict d = Inr None"
  shows "ValidateExpenseData d ''-0.01'' = Inr (Some ''Amount cannot be negative.'')
   \<and> ValidateExpenseData d ''0'' = Inr None
   \<and> (\<forall>s a. float_of_str s = Inr a \<and> flt a (Finite False 0) \<longrightarrow>
          ValidateExpenseData d s = Inr (Some ''Amount cannot be negative.''))
   \<and> (\<forall>s a. float_of_str s = Inr a \<and> feq a (Finite False 0) \<longrightarrow>
          ValidateExpenseData d s = Inr None)"
proof -
  note neg = float_of_str_minus_cent and zero = float_of_str_0
  have ne: "s \<noteq> []" if "float_of_str s = Inr a" for s a
    using that float_of_str_empty by auto
  have lt: "ValidateExpenseData d s = Inr (Some ''Amount cannot be negative.'')"
    if "float_of_str s = Inr a" "flt a (Finite False 0)" for s a
    using that assms ne [OF that(1)] by (simp add: ValidateExpenseData_def truthy_def)
  have eq: "ValidateExpenseData d s = Inr None"
    if "float_of_str s = Inr a" "feq a (Finite False 0)" for s a
  proof -
    have "\<not> flt a (Finite False 0)"
      using that(2) by (cases a) (auto simp: signed_def)
    then show ?thesis
      using that assms ne [OF that(1)] by (simp add: ValidateExpenseData_def truthy_def)
  qed
  have a: "ValidateExpenseData d ''-0.01'' = Inr (Some ''Amount cannot be negative.'')"
    by (rule lt [OF neg]) (simp add: signed_def)
  have b: "ValidateExpenseData d ''0'' = Inr None"
    by (rule eq [OF zero]) (simp add: signed_def)
  show ?thesis using a b lt eq by blast
qed

theorem negative_and_zero_amount_witness:
  "ValidateDateStrict ''2024-01-05'' = Inr None
   \<and> ValidateExpenseData ''2024-01-05'' ''-0.01'' = Inr (Some ''Amount cannot be negative.'')
   \<and> ValidateExpenseData ''2024-01-05'' ''0'' = Inr None
   \<and> float_of_str ''-5'' = Inr (Finite True 5) \<and> flt (Finite True 5) (Finite False 0)
   \<and> ValidateExpenseData ''2024-01-05'' ''-5'' = Inr (Some ''Amount cannot be negative.'')
   \<and> float_of_str ''-0.0'' = Inr (Finite True 0) \<and> feq (Finite True 0) (Finite False 0)
   \<and> ValidateExpenseData ''2024-01-05'' ''-0.0'' = Inr None"
proof -
  note d = date_2024_01_05 and five = float_of_str_minus_5 and zero = float_of_str_minus_0
  have lt: "flt (Finite True 5) (Finite False 0)" by (simp add: signed_def)
  have eq: "feq (Finite True 0) (Finite False 0)" by (simp add: signed_def)
  show ?thesis
    using d five lt zero eq negative_and_zero_amount [OF d] by blast
qed

section \<open>Import and merge\<close>

lemma merge_loop_append:
  "merge_loop (xs @ ys) st = merge_loop ys (merge_loop xs st)"
proof (induction xs arbitrary: st)
  case Nil
  show ?case by simp
next
  case (Cons e xs)
  obtain expenses ks n where st: "st = (expenses, ks, n)" by (cases st) auto
  show ?case unfolding st using Cons.IH by simp
qed

lemma merge_loop_shape:
  "\<exists>added. merge_loop imported (expenses, map ToKey expenses, n)
      = (expenses @ added, map ToKey (expenses @ added), n + length added)
     \<and> subseq added imported"
proof (induction imported arbitrary: expenses n)
  case Nil
  show ?case by simp
next
  case (Cons e imported)
  show ?case
  proof (cases "key_in (ToKey e) (map ToKey expenses)")
    case True
    from Cons.IH [of expenses n] obtain added where
      a: "merge_loop imported (expenses, map ToKey expenses, n)
          = (expenses @ added, map ToKey (expenses @ added), n + length added)"
      and s: "subseq added imported" by blast
    have "subseq added (e # imported)" using s by (rule list_emb_Cons)
    
    with a True show ?thesis by auto
  next
    case False
    from Cons.IH [of "expenses @ [e]" "n + 1"] obtain added where
      a: "merge_loop imported (expenses @ [e], map ToKey (expenses @ [e]), n + 1)
          = ((expenses @ [e]) @ added, map ToKey ((expenses @ [e]) @ added), n + 1 + length added)"
      and s: "subseq added imported" by blast
    have "subseq (e # added) (e # imported)" using s by simp
    moreover have "merge_loop (e # imported) (expenses, map ToKey expenses, n)
        = (expenses @ (e # added), map ToKey (expenses @ (e # added)), n + length (e # added))"
      using a False by simp
    ultimately show ?thesis by blast
  qed
qed

lemma merge_imported_shape:
  "\<exists>added. merge_imported expenses imported = (expenses @ added, length added)
     \<and> subseq added imported
     \<and> merge_loop imported (expenses, map ToKey expenses, 0)
         = (expenses @ added, map ToKey (expenses @ added), length added)"
  using merge_loop_shape [of imported expenses 0] by (auto simp: merge_imported_def)

lemma merge_imported_snoc:
  "merge_imported expenses (imported @ [e]) =
     (case merge_imported expenses imported of
        (current, added) \<Rightarrow>
          if key_in (ToKey e) (map ToKey current) then (current, added)
          else (current @ [e], added + 1))"
proof -
  obtain added where
    m: "merge_loop imported (expenses, map ToKey expenses, 0)
         = (expenses @ added, map ToKey (expenses @ added), length added)"
    using merge_imported_shape [of expenses imported] by blast
  show ?thesis
    by (simp add: merge_imported_def merge_loop_append m)
qed

text \<open>
  Claim C5. The merge of no record changes nothing and adds 0. Record \<open>i\<close> of the
  imported list is appended, and counted, exactly when its key is not the key of a
  record of the list as it stands after the records before \<open>i\<close> were merged: the
  records there from the start and the ones appended earlier in this call. So the
  result is the old list followed by some of the imported records in their order, and
  the number returned is the number appended. A record whose key is present together
  with a record whose key is not adds exactly the second one.
\<close>

theorem import_merge_dedup:
  "merge_imported expenses [] = (expenses, 0)
   \<and> (\<forall>i. i < length imported \<longrightarrow>
         merge_imported expenses (take (Suc i) imported) =
           (case merge_imported expenses (take i imported) of
              (current, added) \<Rightarrow>
                if key_in (ToKey (imported ! i)) (map ToKey current) then (current, added)
                else (current @ [imported ! i], added + 1)))
   \<and> (\<exists>new. merge_imported expenses imported = (expenses @ new, length new)
         \<and> subseq new imported)
   \<and> (key_in (ToKey dup) (map ToKey expenses) \<and> \<not> key_in (ToKey fresh) (map ToKey expenses) \<longrightarrow>
         merge_imported expenses [dup, fresh] = (expenses @ [fresh], 1))"
proof -
  have a: "merge_imported expenses [] = (expenses, 0)"
    by (simp add: merge_imported_def)
  have b: "merge_imported expenses (take (Suc i) imported) =
           (case merge_imported expenses (take i imported) of
              (current, added) \<Rightarrow>
                if key_in (ToKey (imported ! i)) (map ToKey current) then (current, added)
                else (current @ [imported ! i], added + 1))"
    if "i < length imported" for i
    using that merge_imported_snoc [of expenses "take i imported" "imported ! i"]
    by (simp add: take_Suc_conv_app_nth)
  have c: "\<exists>new. merge_imported expenses imported = (expenses @ new, length new)
         \<and> subseq new imported"
    using merge_imported_shape [of expenses imported] by blast
  have d: "merge_imported expenses [dup, fresh] = (expenses @ [fresh], 1)"
    if "key_in (ToKey dup) (map ToKey expenses)" "\<not> key_in (ToKey fresh) (map ToKey expenses)"
    using that by (simp add: merge_imported_def)
  show ?thesis using a b c d by blast
qed

theorem import_merge_dedup_witness:
  "key_in (ToKey lunch) (map ToKey [lunch]) \<and> \<not> key_in (ToKey misc) (map ToKey [lunch])
   \<and> merge_imported [lunch] [lunch, misc] = ([lunch, misc], 1)
   \<and> (1::nat) < length [lunch, misc]
   \<and> merge_imported [lunch] (take (Suc 1) [lunch, misc]) = ([lunch, misc], 1)"
proof -
  have dup: "key_in (ToKey lunch) (map ToKey [lunch])"
    by (simp add: key_in_def key_eq_def ToKey_def lunch_def)
  have fresh: "\<not> key_in (ToKey misc) (map ToKey [lunch])"
    by (simp add: key_in_def key_eq_def ToKey_def lunch_def misc_def)
  have both: "merge_imported [lunch] [lunch, misc] = ([lunch] @ [misc], 1)"
    using import_merge_dedup [of "[lunch]" "[lunch, misc]" lunch misc] dup fresh by blast
  show ?thesis using dup fresh both by simp
qed

section \<open>Adding an expense\<close>

lemma validate_reason_nonempty:
  "ValidateExpenseData d a = Inr (Some reason) \<Longrightarrow> reason \<noteq> []"
  by (auto simp: ValidateExpenseData_def truthy_def
      split: sum.splits if_splits option.splits)

lemma validate_accepts_amount:
  "ValidateExpenseData d a = Inr None \<Longrightarrow>
     \<exists>v. float_of_str a = Inr v \<and> \<not> flt v (Finite False 0)"
  by (auto simp: ValidateExpenseData_def truthy_def
      split: sum.splits if_splits option.splits)

text \<open>
  What \<open>AddExpenseInteractive\<close> does, by the outcome of the validation: an exception
  leaves the method with the list as it was; a reason is reported and the list stays
  as it was; otherwise one record, made of the stripped texts and the value of the
  amount, is appended at the end and reported.
\<close>

lemma add_cases:
  "(\<forall>e. ValidateExpenseData (strip date_in) (strip amount_in) = Inl e \<longrightarrow>
      AddExpenseInteractive expenses date_in category_in amount_in description_in
        = (Inl e, expenses))
   \<and> (\<forall>reason. ValidateExpenseData (strip date_in) (strip amount_in) = Inr (Some reason) \<longrightarrow>
      AddExpenseInteractive expenses date_in category_in amount_in description_in
        = (Inr (Rejected reason), expenses))
   \<and> (ValidateExpenseData (strip date_in) (strip amount_in) = Inr None \<longrightarrow>
      (\<exists>v. float_of_str (strip amount_in) = Inr v \<and> \<not> flt v (Finite False 0)
         \<and> AddExpenseInteractive expenses date_in category_in amount_in description_in
           = (Inr (Added \<lparr>date = strip date_in, category = Some (strip category_in), amount = v,
                           description = Some (strip description_in)\<rparr>),
              expenses @ [\<lparr>date = strip date_in, category = Some (strip category_in), amount = v,
                           description = Some (strip description_in)\<rparr>])))"
proof -
  have a: "AddExpenseInteractive expenses date_in category_in amount_in description_in
        = (Inl e, expenses)"
    if "ValidateExpenseData (strip date_in) (strip amount_in) = Inl e" for e
    using that by (simp add: AddExpenseInteractive_def)
  have b: "AddExpenseInteractive expenses date_in category_in amount_in description_in
        = (Inr (Rejected reason), expenses)"
    if "ValidateExpenseData (strip date_in) (strip amount_in) = Inr (Some reason)" for reason
    using that validate_reason_nonempty [OF that]
    by (simp add: AddExpenseInteractive_def truthy_def)
  have c: "\<exists>v. float_of_str (strip amount_in) = Inr v \<and> \<not> flt v (Finite False 0)
         \<and> AddExpenseInteractive expenses date_in category_in amount_in description_in
           = (Inr (Added \<lparr>date = strip date_in, category = Some (strip category_in), amount = v,
                           description = Some (strip description_in)\<rparr>),
              expenses @ [\<lparr>date = strip date_in, category = Some (strip category_in), amount = v,
                           description = Some (strip description_in)\<rparr>])"
    if ok: "ValidateExpenseData (strip date_in) (strip amount_in) = Inr None"
  proof -
    obtain v where v: "float_of_str (strip amount_in) = Inr v" "\<not> flt v (Finite False 0)"
      using validate_accepts_amount [OF ok] by blast
    then show ?thesis
      using ok by (simp add: AddExpenseInteractive_def truthy_def or_str_def Let_def)
  qed
  show ?thesis using a b c by blast
qed

lemma add_amount_not_negative:
  assumes "AddExpenseInteractive expenses date_in category_in amount_in description_in = (r, expenses')"
    and "\<forall>e \<in> set expenses. \<not> flt (amount e) (Finite False 0)"
  shows "\<forall>e \<in> set expenses'. \<not> flt (amount e) (Finite False 0)"
proof (cases "ValidateExpenseData (strip date_in) (strip amount_in)")
  case (Inl e)
  then have "expenses' = expenses"
    using assms(1) add_cases [of date_in amount_in expenses category_in description_in] by auto
  then show ?thesis using assms(2) by simp
next
  case (Inr err)
  show ?thesis
  proof (cases err)
    case None
    then obtain v where "\<not> flt v (Finite False 0)"
      and "expenses' = expenses @ [\<lparr>date = strip date_in, category = Some (strip category_in),
              amount = v, description = Some (strip description_in)\<rparr>]"
      using Inr assms(1) add_cases [of date_in amount_in expenses category_in description_in]
      by auto
    then show ?thesis using assms(2) by auto
  next
    case (Some reason)
    then have "expenses' = expenses"
      using Inr assms(1) add_cases [of date_in amount_in expenses category_in description_in]
      by auto
    then show ?thesis using assms(2) by simp
  qed
qed

lemma delete_subset:
  assumes "DeleteExpense str_of_float expenses typed = (r, expenses')"
  shows "set expenses' \<subseteq> set expenses"
  using assms
  by (auto simp: DeleteExpense_def pop_def split: if_splits sum.splits
      dest: in_set_takeD in_set_dropD)

lemma strip_examples:
  "strip ''2024-01-05'' = ''2024-01-05''" "strip ''Food'' = ''Food''" "strip ''10'' = ''10''"
  "strip ''lunch'' = ''lunch''" "strip ''-5'' = ''-5''" "strip ''refund'' = ''refund''"
  by code_simp+

lemma add_lunch:
  "AddExpenseInteractive [] ''2024-01-05'' ''Food'' ''10'' ''lunch'' = (Inr (Added lunch), [lunch])"
proof -
  have "ValidateExpenseData ''2024-01-05'' ''10'' = Inr None"
    by (simp add: ValidateExpenseData_def truthy_def date_2024_01_05 float_of_str_10 signed_def)
  then show ?thesis
    using add_cases [of "''2024-01-05''" "''10''" "[]" "''Food''" "''lunch''"]
    by (simp add: strip_examples float_of_str_10 lunch_def)
qed

section \<open>The sign of stored amounts\<close>

text \<open>
  Claim C3, as the code has it. In a list built from the empty list by
  \<open>AddExpenseInteractive\<close> and \<open>DeleteExpense\<close> alone, no record has an amount below
  zero: the validation rejects such an amount before anything is appended.
\<close>

theorem entered_amount_not_negative:
  assumes "entered expenses"
  shows "\<forall>e \<in> set expenses. \<not> flt (amount e) (Finite False 0)"
  using assms
proof (induction rule: entered.induct)
  case entered_start
  show ?case by simp
next
  case (entered_add expenses date_in category_in amount_in description_in r expenses')
  then show ?case using add_amount_not_negative by blast
next
  case (entered_delete expenses str_of_float typed r expenses')
  then show ?case using delete_subset by blast
qed

theorem entered_amount_not_negative_witness:
  "entered [lunch] \<and> \<not> flt (amount lunch) (Finite False 0)"
proof -
  have e: "entered [lunch]"
    using entered_add [OF entered_start add_lunch] .
  show ?thesis
    using e entered_amount_not_negative [OF e] by simp
qed

text \<open>
  The claim as stated fails for the records that come from a file: neither \<open>FromDict\<close>
  nor \<open>fromDict\<close> looks at the sign, so a stored row with the amount \<open>-5\<close> is loaded
  with an amount below zero.
\<close>

theorem load_negative_counterexample:
  "LoadExpensesFromCsv (\<lambda>p. Present [[(''date'', ''2024-01-05''), (''category'', ''Food''),
        (''amount'', ''-5''), (''description'', ''refund'')]]) \<lparr>csv_path = ''expenses.csv''\<rparr> None
     = [\<lparr>date = ''2024-01-05'', category = Some ''Food'', amount = Finite True 5,
          description = Some ''refund''\<rparr>]
   \<and> loadFromCsv (\<lambda>p. Present [[(''date'', ''2024-01-05''), (''category'', ''Food''),
        (''amount'', ''-5''), (''description'', ''refund'')]]) \<lparr>filePath = ''expenses.csv''\<rparr>
     = [\<lparr>f_date = ''2024-01-05'', f_category = ''Food'', f_amount = Finite True 5,
          f_description = ''refund''\<rparr>]
   \<and> flt (Finite True 5) (Finite False 0)
   \<and> \<not> fge (Finite True 5) (Finite False 0)"
  by (simp add: LoadExpensesFromCsv_def loadFromCsv_def FromDict_def fromDict_def dict_get_def
      or_opt_def or_str_def strip_examples float_of_str_minus_5 fge_def signed_def)

section \<open>Deleting from a ledger built by entry\<close>

lemma validate_date_returned:
  "ValidateExpenseData d a = Inr x \<Longrightarrow> \<exists>r. ValidateDateStrict d = Inr r"
  by (auto simp: ValidateExpenseData_def split: sum.splits)

lemma add_dates_checked:
  assumes "AddExpenseInteractive expenses date_in category_in amount_in description_in = (r, expenses')"
    and "\<forall>e \<in> set expenses. \<exists>r. ValidateDateStrict (date e) = Inr r"
  shows "\<forall>e \<in> set expenses'. \<exists>r. ValidateDateStrict (date e) = Inr r"
proof (cases "ValidateExpenseData (strip date_in) (strip amount_in)")
  case (Inl e)
  then have "expenses' = expenses"
    using assms(1) add_cases [of date_in amount_in expenses category_in description_in] by auto
  then show ?thesis using assms(2) by simp
next
  case (Inr err)
  then obtain d where d: "ValidateDateStrict (strip date_in) = Inr d"
    using validate_date_returned by blast
  show ?thesis
  proof (cases err)
    case None
    then obtain v where
      "expenses' = expenses @ [\<lparr>date = strip date_in, category = Some (strip category_in),
              amount = v, description = Some (strip description_in)\<rparr>]"
      using Inr assms(1) add_cases [of date_in amount_in expenses category_in description_in]
      by auto
    then show ?thesis using assms(2) d by auto
  next
    case (Some reason)
    then have "expenses' = expenses"
      using Inr assms(1) add_cases [of date_in amount_in expenses category_in description_in]
      by auto
    then show ?thesis using assms(2) by simp
  qed
qed

text \<open>
  Every date of a ledger built by \<open>AddExpenseInteractive\<close> and \<open>DeleteExpense\<close> alone
  has passed the date check, so the listing of \<open>DeleteExpense\<close> does not raise there and
  \<open>delete_cases\<close> applies.
\<close>

lemma entered_dates_checked:
  assumes "entered expenses"
  shows "\<forall>e \<in> set expenses. \<exists>r. ValidateDateStrict (date e) = Inr r"
  using assms
proof (induction rule: entered.induct)
  case entered_start
  show ?case by simp
next
  case (entered_add expenses date_in category_in amount_in description_in r expenses')
  then show ?case using add_dates_checked by blast
next
  case (entered_delete expenses str_of_float typed r expenses')
  then show ?case using delete_subset by blast
qed

section \<open>A date that makes the validation raise\<close>

text \<open>
  Claim C7 at the date text made of four times the character U+00B2 (superscript two)
  and \<open>-01-05\<close>. \<open>str.isdigit\<close> accepts the first part, \<open>int\<close> raises ValueError on it,
  and nothing catches it: \<open>_ValidateDateStrict\<close> returns no reason, and
  \<open>AddExpenseInteractive\<close> ends with the exception, the list unchanged.
\<close>

theorem add_raises_on_superscript_digits:
  "isdigit [CHR 0xB2, CHR 0xB2, CHR 0xB2, CHR 0xB2]
   \<and> int_of_str [CHR 0xB2, CHR 0xB2, CHR 0xB2, CHR 0xB2] = Inl ValueError
   \<and> ValidateDateStrict ([CHR 0xB2, CHR 0xB2, CHR 0xB2, CHR 0xB2] @ ''-01-05'') = Inl ValueError
   \<and> AddExpenseInteractive [lunch] ([CHR 0xB2, CHR 0xB2, CHR 0xB2, CHR 0xB2] @ ''-01-05'')
        ''Food'' ''10'' ''lunch'' = (Inl ValueError, [lunch])"
  by code_simp

theorem add_raises_on_superscript_digits_witness:
  "fst (AddExpenseInteractive [lunch] ([CHR 0xB2, CHR 0xB2, CHR 0xB2, CHR 0xB2] @ ''-01-05'')
        ''Food'' ''10'' ''lunch'') = Inl ValueError"
  using add_raises_on_superscript_digits by simp

section \<open>Floats that add without rounding\<close>

lemma pow2_powi: "pow2 e = power_int 2 e"
  by (simp add: pow2_def power_int_def field_simps)

lemma pow2_pos [simp]: "0 < pow2 e"
  by (simp add: pow2_powi)

lemma pow2_add: "pow2 (a + b) = pow2 a * pow2 b"
  by (simp add: pow2_powi power_int_add)

lemma pow2_mono: "a \<le> b \<Longrightarrow> pow2 a \<le> pow2 b"
  by (simp add: pow2_powi power_int_increasing)

lemma pow2_strict_mono: "a < b \<Longrightarrow> pow2 a < pow2 b"
  by (simp add: pow2_powi power_int_strict_increasing)

lemma pow2_nonneg: "0 \<le> e \<Longrightarrow> pow2 e = of_int (2 ^ nat e)"
  by (simp add: pow2_def)

lemma round_half_even_of_int [simp]: "round_half_even (of_int m) = m"
  by (simp add: round_half_even_def)

text \<open>\<open>binary_exponent\<close> is the exponent of the power of two at or below its argument.\<close>

lemma binary_exponent_unique:
  assumes lo: "pow2 e \<le> x" and hi: "x < pow2 (e + 1)"
  shows "binary_exponent x = e"
proof (cases "0 \<le> e")
  case True
  have p: "pow2 e = of_int (2 ^ nat e)" "pow2 (e + 1) = of_int (2 ^ nat (e + 1))"
    using True by (simp_all add: pow2_nonneg)
  have one: "1 \<le> x"
  proof -
    have "(1::rat) \<le> of_int (2 ^ nat e)" by simp
    then show ?thesis using lo p(1) by linarith
  qed
  have a: "2 ^ nat e \<le> \<lfloor>x\<rfloor>"
    using lo p(1) by (simp add: le_floor_iff)
  have b: "\<lfloor>x\<rfloor> < 2 ^ nat (e + 1)"
    using hi p(2) by (simp add: floor_less_iff)
  have "bitlen \<lfloor>x\<rfloor> \<le> e + 1"
    using b True by (simp add: bitlen_le_iff_power)
  moreover have "e + 1 \<le> bitlen \<lfloor>x\<rfloor>"
    using a True by (simp add: bitlen_ge_iff_power nat_add_distrib)
  ultimately have "bitlen \<lfloor>x\<rfloor> = e + 1" by simp
  then show ?thesis using one by (simp add: binary_exponent_def)
next
  case False
  define k where "k = nat (- e)"
  have k: "0 < k" "e = - int k" using False by (simp_all add: k_def)
  have pe: "pow2 e = 1 / 2 ^ k" using False by (simp add: pow2_def k_def)
  have pe1: "pow2 (e + 1) = 1 / 2 ^ (k - 1)"
  proof (cases "e + 1 = 0")
    case True
    then have "k = 1" using k by simp
    then show ?thesis using True by (simp add: pow2_def)
  next
    case ne: False
    then have "e + 1 < 0" using False by simp
    moreover have "nat (- (e + 1)) = k - 1" using k by simp
    ultimately show ?thesis by (simp add: pow2_def)
  qed
  have xpos: "0 < x" using lo pow2_pos [of e] by linarith
  have lt1: "x < 1"
  proof -
    have "(1::rat) \<le> 2 ^ (k - 1)" by simp
    then have "1 / 2 ^ (k - 1) \<le> (1::rat)" by (simp add: divide_le_eq_1)
    then show ?thesis using hi pe1 by linarith
  qed
  have up: "1 / x \<le> 2 ^ k"
  proof -
    have "1 \<le> x * 2 ^ k" using lo pe by (simp add: field_simps)
    then show ?thesis using xpos by (simp add: field_simps)
  qed
  have down: "2 ^ (k - 1) < 1 / x"
  proof -
    have "x < 1 / 2 ^ (k - 1)" using hi pe1 by simp
    then have "x * 2 ^ (k - 1) < 1" by (simp add: pos_less_divide_eq)
    then show ?thesis using xpos by (simp add: field_simps)
  qed
  have c_up: "\<lceil>1 / x\<rceil> \<le> 2 ^ k"
  proof -
    have "1 / x \<le> of_int (2 ^ k)" using up by simp
    then show ?thesis by (simp only: ceiling_le_iff)
  qed
  have c_down: "2 ^ (k - 1) < \<lceil>1 / x\<rceil>"
  proof -
    have "of_int (2 ^ (k - 1)) < 1 / x" using down by simp
    then show ?thesis by (simp only: less_ceiling_iff)
  qed
  have "bitlen (\<lceil>1 / x\<rceil> - 1) \<le> int k"
    using c_up by (simp add: bitlen_le_iff_power)
  moreover have "int k \<le> bitlen (\<lceil>1 / x\<rceil> - 1)"
    using c_down k by (simp add: bitlen_ge_iff_power)
  ultimately have "bitlen (\<lceil>1 / x\<rceil> - 1) = int k" by simp
  then show ?thesis using lt1 k by (simp add: binary_exponent_def)
qed

text \<open>A whole number of units below \<open>2 ^ 53\<close> is a binary64 value: rounding keeps it.\<close>

lemma round_to_double_units:
  assumes n: "0 < n" "n < 2 ^ 53" and q: "- 1074 \<le> q" "q \<le> 971"
  shows "round_to_double s (of_nat n * pow2 q) = Finite s (of_nat n * pow2 q)"
proof -
  define b where "b = bitlen (int n)"
  define x :: rat where "x = of_nat n * pow2 q"
  have npos: "0 < int n" using n by simp
  have b1: "2 ^ nat (b - 1) \<le> int n" and b2: "int n < 2 ^ nat b"
    using bitlen_bounds [OF npos] by (simp_all add: b_def)
  have bpos: "1 \<le> b"
    using npos bitlen_eq_zero_iff [of "int n"] bitlen_nonneg [of "int n"] by (simp add: b_def)
  have b53: "b \<le> 53"
    using n by (simp add: b_def bitlen_le_iff_power)
  have lo: "pow2 (b - 1 + q) \<le> x"
  proof -
    have "pow2 (b - 1) = of_int (2 ^ nat (b - 1))" using bpos by (simp add: pow2_nonneg)
    also have "\<dots> \<le> of_int (int n)" using b1 by (simp only: of_int_le_iff)
    finally have "pow2 (b - 1) \<le> of_nat n" by simp
    then have "pow2 (b - 1) * pow2 q \<le> of_nat n * pow2 q"
      by (simp add: mult_right_mono)
    then show ?thesis by (simp add: pow2_add x_def)
  qed
  have hi: "x < pow2 (b - 1 + q + 1)"
  proof -
    have "of_int (int n) < (of_int (2 ^ nat b) :: rat)" using b2 by (simp only: of_int_less_iff)
    also have "\<dots> = pow2 b" using bpos by (simp add: pow2_nonneg)
    finally have "of_nat n < pow2 b" by simp
    then have "of_nat n * pow2 q < pow2 b * pow2 q"
      by (simp add: mult_strict_right_mono)
    moreover have "b - 1 + q + 1 = b + q" by simp
    ultimately show ?thesis by (simp add: pow2_add x_def)
  qed
  have e: "binary_exponent x = b - 1 + q"
    using lo hi by (rule binary_exponent_unique)
  define q' where "q' = max (b - 1 + q - 52) (- 1074)"
  have q'q: "q' \<le> q" using b53 q by (simp add: q'_def)
  have factor: "pow2 q = pow2 (q - q') * pow2 q'"
    using pow2_add [of "q - q'" q'] by simp
  have whole: "pow2 (q - q') = of_int (2 ^ nat (q - q'))"
    using q'q by (simp add: pow2_nonneg)
  have ne: "pow2 q' \<noteq> 0" using pow2_pos [of q'] by linarith
  have quot: "x / pow2 q' = of_int (int n * 2 ^ nat (q - q'))"
  proof -
    have "x / pow2 q' = of_nat n * pow2 (q - q')"
      using ne by (simp add: x_def factor)
    then show ?thesis by (simp add: whole)
  qed
  have same: "of_int (round_half_even (x / pow2 q')) * pow2 q' = x"
  proof -
    have "of_int (round_half_even (x / pow2 q')) * pow2 q' = of_nat n * pow2 (q - q') * pow2 q'"
      by (simp only: quot round_half_even_of_int) (simp add: whole)
    then show ?thesis by (simp add: x_def factor)
  qed
  have small: "\<not> pow2 1024 \<le> x"
  proof -
    have "b - 1 + q + 1 \<le> 1024" using b53 q by simp
    then have "pow2 (b - 1 + q + 1) \<le> pow2 1024" by (rule pow2_mono)
    then show ?thesis using hi by linarith
  qed
  have xne: "x \<noteq> 0" using lo pow2_pos [of "b - 1 + q"] by linarith
  have qq: "max (binary_exponent x - 52) (- 1074) = q'"
    by (simp add: e q'_def)
  have "round_to_double s x = Finite s x"
    unfolding round_to_double_def Let_def qq same using xne small by simp
  then show ?thesis by (simp add: x_def)
qed

lemma fadd_units:
  assumes "m + n < 2 ^ 53" and "- 1074 \<le> q" "q \<le> 971"
  shows "fadd (units q m) (units q n) = units q (m + n)"
proof (cases "m + n = 0")
  case True
  then show ?thesis by (simp add: units_def signed_def)
next
  case False
  have r: "signed False (of_nat m * pow2 q) + signed False (of_nat n * pow2 q)
      = of_nat (m + n) * pow2 q"
    by (simp add: signed_def algebra_simps)
  have "0 < m + n" using False by simp
  then have "(0::rat) < of_nat (m + n)" by (simp only: of_nat_0_less_iff)
  then have pos: "0 < (of_nat (m + n) :: rat) * pow2 q"
    by (simp only: zero_less_mult_iff pow2_pos) simp
  have "round_to_double False (of_nat (m + n) * pow2 q) = Finite False (of_nat (m + n) * pow2 q)"
    using False assms by (intro round_to_double_units) simp_all
  then show ?thesis
    using pos unfolding units_def fadd.simps r by (simp add: Let_def)
qed

lemma units_zero: "units q 0 = Finite False 0"
  by (simp add: units_def)

lemma units_whole: "units 0 n = Finite False (of_nat n)"
  by (simp add: units_def pow2_def)

lemma foldl_fadd_units:
  assumes "k + sum_list ns < 2 ^ 53" and "- 1074 \<le> q" "q \<le> 971"
  shows "foldl fadd (units q k) (map (units q) ns) = units q (k + sum_list ns)"
  using assms(1)
proof (induction ns arbitrary: k)
  case Nil
  show ?case by simp
next
  case (Cons n ns)
  have "fadd (units q k) (units q n) = units q (k + n)"
    using Cons.prems assms(2,3) by (intro fadd_units) simp_all
  moreover have "foldl fadd (units q (k + n)) (map (units q) ns) = units q (k + n + sum_list ns)"
    using Cons.prems by (intro Cons.IH) simp
  ultimately show ?case by (simp add: add.assoc)
qed

section \<open>The category report\<close>

lemma dict_get_update:
  "dict_get (AList.update k v al) k' d = (if k' = k then v else dict_get al k' d)"
  by (simp add: dict_get_def update_conv')

lemma totals_snoc:
  "foldl add_to_category [] (es @ [e]) =
     AList.update (category_key e)
       (fadd (dict_get (foldl add_to_category [] es) (category_key e) (Finite False 0)) (amount e))
       (foldl add_to_category [] es)"
  by (simp add: add_to_category_def Let_def)

lemma totals_keys:
  "fst ` set (foldl add_to_category [] es) = category_key ` set es"
proof (induction es rule: rev_induct)
  case Nil
  show ?case by simp
next
  case (snoc e es)
  show ?case
    unfolding totals_snoc dom_update using snoc.IH by auto
qed

lemma totals_distinct:
  "distinct (map fst (foldl add_to_category [] es))"
proof (induction es rule: rev_induct)
  case Nil
  show ?case by simp
next
  case (snoc e es)
  show ?case
    unfolding totals_snoc using snoc.IH by (rule distinct_update)
qed

lemma totals_values:
  "dict_get (foldl add_to_category [] es) k (Finite False 0)
     = foldl fadd (Finite False 0) (map amount (filter (\<lambda>e. category_key e = k) es))"
proof (induction es arbitrary: k rule: rev_induct)
  case Nil
  show ?case by (simp add: dict_get_def)
next
  case (snoc e es)
  show ?case
    unfolding totals_snoc dict_get_update using snoc.IH by simp
qed

lemma report_sorted_totals:
  "CategorizeExpenseReport es = sort_key (\<lambda>x. lower (fst x)) (foldl add_to_category [] es)"
  by (simp add: CategorizeExpenseReport_def)

lemma report_entry:
  assumes "(c, t) \<in> set (CategorizeExpenseReport es)"
  shows "t = foldl fadd (Finite False 0) (map amount (filter (\<lambda>e. category_key e = c) es))"
proof -
  have "(c, t) \<in> set (foldl add_to_category [] es)"
    using assms by (simp add: report_sorted_totals)
  then have "map_of (foldl add_to_category [] es) c = Some t"
    using totals_distinct [of es] by simp
  then have "dict_get (foldl add_to_category [] es) c (Finite False 0) = t"
    by (simp add: dict_get_def)
  then show ?thesis by (simp add: totals_values)
qed

lemma report_distinct: "distinct (map fst (CategorizeExpenseReport es))"
proof -
  have d: "distinct (map fst (foldl add_to_category [] es))" by (rule totals_distinct)
  then have "distinct (foldl add_to_category [] es)"
    and "inj_on fst (set (foldl add_to_category [] es))"
    by (simp_all add: distinct_map)
  then show ?thesis
    by (simp add: report_sorted_totals distinct_map)
qed

lemma category_keys_examples:
  "category_key lunch = ''Food''" "category_key snack = ''food''"
  "category_key misc = ''Uncategorized''"
  by (simp_all add: lunch_def snack_def misc_def) code_simp+

lemma amount_examples:
  "amount lunch = Finite False 10" "amount snack = Finite False 5" "amount misc = Finite False 3"
  by (simp_all add: lunch_def snack_def misc_def)

lemma fadd_examples:
  "fadd (Finite False 0) (Finite False 10) = Finite False 10"
  "fadd (Finite False 0) (Finite False 5) = Finite False 5"
  "fadd (Finite False 0) (Finite False 3) = Finite False 3"
  by (simp add: float_eval signed_def)+

lemma sort_example:
  "sort_key (\<lambda>x. lower (fst x))
     [(''Food'', Finite False 10), (''food'', Finite False 5), (''Uncategorized'', Finite False 3)]
   = [(''Food'', Finite False 10), (''food'', Finite False 5), (''Uncategorized'', Finite False 3)]"
  by code_simp

lemma report_example:
  "CategorizeExpenseReport [lunch, snack, misc]
     = [(''Food'', Finite False 10), (''food'', Finite False 5), (''Uncategorized'', Finite False 3)]"
proof -
  have "foldl add_to_category [] [lunch, snack, misc]
     = [(''Food'', Finite False 10), (''food'', Finite False 5), (''Uncategorized'', Finite False 3)]"
    by (simp add: add_to_category_def category_keys_examples dict_get_def fadd_examples
        amount_examples del: fadd.simps)
  then show ?thesis
    by (simp only: report_sorted_totals sort_example)
qed

text \<open>
  Claim C4, as the code has it. The report has one line for each label, the label of
  an expense being its category without the whitespace around it, or
  \<open>Uncategorized\<close> when that is empty or the category is absent; labels that differ
  in case are different labels. The lines are in the order of their lowered labels,
  and the total of a line is the sum, in the order of the list, of the amounts of the
  expenses with its label. For the categories \<open>Food\<close>, \<open>food\<close> between blanks and the
  empty one, with the amounts 10, 5 and 3, the report has three lines.
\<close>

theorem report_groups_by_trimmed_label:
  "distinct (map fst (CategorizeExpenseReport es))
   \<and> fst ` set (CategorizeExpenseReport es) = category_key ` set es
   \<and> sorted (map (\<lambda>x. lower (fst x)) (CategorizeExpenseReport es))
   \<and> (\<forall>c t. (c, t) \<in> set (CategorizeExpenseReport es) \<longrightarrow>
         t = foldl fadd (Finite False 0) (map amount (filter (\<lambda>e. category_key e = c) es)))
   \<and> (\<forall>e. category_key e =
         (if strip (or_opt (category e) []) = [] then ''Uncategorized''
          else strip (or_opt (category e) [])))
   \<and> CategorizeExpenseReport [lunch, snack, misc]
       = [(''Food'', Finite False 10), (''food'', Finite False 5),
          (''Uncategorized'', Finite False 3)]"
proof -
  have keys: "fst ` set (CategorizeExpenseReport es) = category_key ` set es"
    by (simp add: report_sorted_totals totals_keys)
  have ordered: "sorted (map (\<lambda>x. lower (fst x)) (CategorizeExpenseReport es))"
    by (simp add: report_sorted_totals)
  have label: "category_key e =
         (if strip (or_opt (category e) []) = [] then ''Uncategorized''
          else strip (or_opt (category e) []))" for e
    by (simp add: category_key_def or_str_def)
  show ?thesis
    using report_distinct keys ordered report_entry label report_example by blast
qed

theorem report_groups_by_trimmed_label_witness:
  "(''food'', Finite False 5) \<in> set (CategorizeExpenseReport [lunch, snack, misc])
   \<and> foldl fadd (Finite False 0)
        (map amount (filter (\<lambda>e. category_key e = ''food'') [lunch, snack, misc]))
       = Finite False 5
   \<and> category_key snack = ''food''"
proof -
  have m: "(''food'', Finite False 5) \<in> set (CategorizeExpenseReport [lunch, snack, misc])"
    by (simp add: report_example)
  have "Finite False 5 = foldl fadd (Finite False 0)
        (map amount (filter (\<lambda>e. category_key e = ''food'') [lunch, snack, misc]))"
    using m report_groups_by_trimmed_label [of "[lunch, snack, misc]"] by blast
  then show ?thesis using m by (simp add: category_keys_examples)
qed

text \<open>
  The claim as stated fails: \<open>Food\<close> and \<open>food\<close> are not merged, so the report of the
  three expenses is not the two lines \<open>Food\<close> 15.00 and \<open>Uncategorized\<close> 3.00.
\<close>

theorem report_case_counterexample:
  "CategorizeExpenseReport [lunch, snack, misc]
     \<noteq> [(''Food'', Finite False 15), (''Uncategorized'', Finite False 3)]
   \<and> length (CategorizeExpenseReport [lunch, snack, misc]) = 3
   \<and> map fst (CategorizeExpenseReport [lunch, snack, misc]) = [''Food'', ''food'', ''Uncategorized'']
   \<and> category (lunch) = Some ''Food'' \<and> category snack = Some '' food ''
   \<and> category misc = Some []"
proof -
  have "category lunch = Some ''Food''" "category snack = Some '' food ''"
    "category misc = Some []"
    by (simp_all add: lunch_def snack_def misc_def)
  then show ?thesis by (simp add: report_example)
qed

section \<open>The total and the subtotals\<close>

lemma total_fold: "CalculateTotalExpenses es = foldl fadd (Finite False 0) (map amount es)"
  by (simp add: CalculateTotalExpenses_def foldl_map)

lemma sum_list_insort_key:
  "sum_list (map h (insort_key f x xs)) = (h x :: nat) + sum_list (map h xs)"
  by (induction xs) auto

lemma sum_list_sort_key:
  "sum_list (map h (sort_key f xs)) = (sum_list (map h xs) :: nat)"
  by (induction xs) (auto simp: sum_list_insort_key)

lemma magnitude_units: "nat \<lfloor>magnitude (units q n) / pow2 q\<rfloor> = n"
proof -
  have "pow2 q \<noteq> 0" using pow2_pos [of q] by linarith
  then have "magnitude (units q n) / pow2 q = of_nat n"
    by (simp add: magnitude_def units_def)
  then show ?thesis by simp
qed

text \<open>
  One step of the report's loop on totals that are whole numbers of units: they stay
  so, and their counts grow by the count of the amount.
\<close>

lemma update_units:
  assumes "map snd al = map (units q) cs" and "sum_list cs + n < 2 ^ 53"
    and "- 1074 \<le> q" "q \<le> 971"
  shows "\<exists>cs'. map snd (AList.update k (fadd (dict_get al k (Finite False 0)) (units q n)) al)
            = map (units q) cs'
          \<and> sum_list cs' = sum_list cs + n"
  using assms(1,2)
proof (induction al arbitrary: cs)
  case Nil
  have "fadd (units q 0) (units q n) = units q (0 + n)"
    using Nil.prems assms(3,4) by (intro fadd_units) simp_all
  then have "map snd (AList.update k (fadd (dict_get [] k (Finite False 0)) (units q n)) [])
      = map (units q) [n]"
    by (simp add: dict_get_def units_zero)
  moreover have "cs = []" using Nil.prems by simp
  ultimately show ?case by (intro exI [of _ "[n]"]) simp
next
  case (Cons p al)
  obtain k' v where p: "p = (k', v)" by (cases p)
  obtain c cs0 where cs: "cs = c # cs0" "v = units q c" "map snd al = map (units q) cs0"
    using Cons.prems(1) p by (cases cs) auto
  show ?case
  proof (cases "k' = k")
    case True
    have "fadd (units q c) (units q n) = units q (c + n)"
      using Cons.prems(2) cs(1) assms(3,4) by (intro fadd_units) simp_all
    then have "map snd (AList.update k (fadd (dict_get (p # al) k (Finite False 0)) (units q n)) (p # al))
        = map (units q) ((c + n) # cs0)"
      using True p cs by (simp add: dict_get_def)
    then show ?thesis
      using cs(1) by (intro exI [of _ "(c + n) # cs0"]) simp
  next
    case False
    have "sum_list cs0 + n < 2 ^ 53" using Cons.prems(2) cs(1) by simp
    from Cons.IH [OF cs(3) this] obtain cs1 where
      c1: "map snd (AList.update k (fadd (dict_get al k (Finite False 0)) (units q n)) al)
            = map (units q) cs1" "sum_list cs1 = sum_list cs0 + n"
      by blast
    have "map snd (AList.update k (fadd (dict_get (p # al) k (Finite False 0)) (units q n)) (p # al))
        = map (units q) (c # cs1)"
      using False p cs c1(1) by (simp add: dict_get_def)
    then show ?thesis
      using cs(1) c1(2) by (intro exI [of _ "c # cs1"]) simp
  qed
qed

lemma totals_units:
  assumes "\<forall>e \<in> set es. amount e = units q (cnt e)" and "sum_list (map cnt es) < 2 ^ 53"
    and "- 1074 \<le> q" "q \<le> 971"
  shows "\<exists>cs. map snd (foldl add_to_category [] es) = map (units q) cs
          \<and> sum_list cs = sum_list (map cnt es)"
  using assms(1,2)
proof (induction es rule: rev_induct)
  case Nil
  show ?case by simp
next
  case (snoc e es)
  have "\<forall>e \<in> set es. amount e = units q (cnt e)" using snoc.prems(1) by simp
  moreover have "sum_list (map cnt es) < 2 ^ 53" using snoc.prems(2) by simp
  ultimately obtain cs where
    cs: "map snd (foldl add_to_category [] es) = map (units q) cs"
        "sum_list cs = sum_list (map cnt es)"
    using snoc.IH by blast
  have a: "amount e = units q (cnt e)" using snoc.prems(1) by simp
  have "sum_list cs + cnt e < 2 ^ 53" using snoc.prems(2) cs(2) by simp
  from update_units [OF cs(1) this assms(3,4)] obtain cs' where
    "map snd (AList.update (category_key e)
        (fadd (dict_get (foldl add_to_category [] es) (category_key e) (Finite False 0))
           (units q (cnt e)))
        (foldl add_to_category [] es)) = map (units q) cs'"
    "sum_list cs' = sum_list cs + cnt e"
    by blast
  then show ?case
    unfolding totals_snoc a using cs(2) by (intro exI [of _ cs']) simp
qed

text \<open>
  Claim C10, as the code has it. When every amount is a whole number of units of one
  power of two (whole numbers, or halves, or quarters, ...) and the amounts add up to
  less than \<open>2 ^ 53\<close> units, no addition rounds: the total and the sum of the
  subtotals of the report are both the exact sum of the amounts.
\<close>

theorem total_is_sum_of_subtotals:
  assumes "\<forall>e \<in> set es. amount e = units q (cnt e)" and "sum_list (map cnt es) < 2 ^ 53"
    and "- 1074 \<le> q" "q \<le> 971"
  shows "CalculateTotalExpenses es = units q (sum_list (map cnt es))
    \<and> sum_subtotals (CategorizeExpenseReport es) = units q (sum_list (map cnt es))
    \<and> CalculateTotalExpenses es = sum_subtotals (CategorizeExpenseReport es)"
proof -
  have amounts: "map amount es = map (units q) (map cnt es)"
    using assms(1) by simp
  have total: "CalculateTotalExpenses es = units q (sum_list (map cnt es))"
    unfolding total_fold amounts
    using foldl_fadd_units [of 0 "map cnt es" q] assms(2,3,4) by (simp add: units_zero)
  obtain cs where cs: "map snd (foldl add_to_category [] es) = map (units q) cs"
      "sum_list cs = sum_list (map cnt es)"
    using totals_units [OF assms] by blast
  define c where "c = (\<lambda>v. nat \<lfloor>magnitude v / pow2 q\<rfloor>)"
  have c_units: "c (units q n) = n" for n
    by (simp add: c_def magnitude_units)
  let ?report = "CategorizeExpenseReport es"
  have each: "snd x = units q (c (snd x))" if "x \<in> set ?report" for x
  proof -
    have "snd x \<in> set (map snd (foldl add_to_category [] es))"
      using that by (simp add: report_sorted_totals)
    then obtain n where "snd x = units q n" unfolding cs(1) by auto
    then show ?thesis by (simp add: c_units)
  qed
  have subtotals: "map snd ?report = map (units q) (map (\<lambda>x. c (snd x)) ?report)"
    using each by simp
  have "sum_list (map (\<lambda>x. c (snd x)) ?report)
      = sum_list (map (\<lambda>x. c (snd x)) (foldl add_to_category [] es))"
    by (simp add: report_sorted_totals sum_list_sort_key)
  also have "\<dots> = sum_list (map c (map snd (foldl add_to_category [] es)))"
    by (simp add: comp_def)
  also have "\<dots> = sum_list cs"
    unfolding cs(1) by (simp add: comp_def c_units)
  finally have count: "sum_list (map (\<lambda>x. c (snd x)) ?report) = sum_list (map cnt es)"
    using cs(2) by simp
  have "sum_subtotals ?report = foldl fadd (units q 0) (map snd ?report)"
    by (simp add: sum_subtotals_def units_zero)
  also have "\<dots> = foldl fadd (units q 0) (map (units q) (map (\<lambda>x. c (snd x)) ?report))"
    using subtotals by (rule arg_cong)
  also have "\<dots> = units q (0 + sum_list (map (\<lambda>x. c (snd x)) ?report))"
    using assms(2,3,4) count by (intro foldl_fadd_units) simp_all
  finally have sub: "sum_subtotals ?report = units q (sum_list (map cnt es))"
    using count by simp
  show ?thesis using total sub by simp
qed

theorem total_is_sum_of_subtotals_witness:
  "(- 1074 :: int) \<le> - 2 \<and> (- 2 :: int) \<le> 971
   \<and> amount jan5 = units (- 2) 50 \<and> amount jan6 = units (- 2) 29 \<and> amount jan7 = units (- 2) 400
   \<and> (50 + 29 + 400 :: nat) < 2 ^ 53
   \<and> CalculateTotalExpenses [jan5, jan6, jan7] = Finite False (479 / 4)
   \<and> sum_subtotals (CategorizeExpenseReport [jan5, jan6, jan7]) = Finite False (479 / 4)"
proof -
  define cnt :: "Expense \<Rightarrow> nat" where "cnt = (\<lambda>e. nat \<lfloor>magnitude (amount e) * 4\<rfloor>)"
  have a: "amount jan5 = units (- 2) 50" "amount jan6 = units (- 2) 29"
    "amount jan7 = units (- 2) 400"
    by (simp_all add: jan5_def jan6_def jan7_def units_def pow2_def)
  have c: "cnt jan5 = 50" "cnt jan6 = 29" "cnt jan7 = 400"
    by (simp_all add: cnt_def jan5_def jan6_def jan7_def magnitude_def floor_rat_numeral)
  have h1: "\<forall>e \<in> set [jan5, jan6, jan7]. amount e = units (- 2) (cnt e)"
    using a c by simp
  have h2: "sum_list (map cnt [jan5, jan6, jan7]) < 2 ^ 53"
    using c by simp
  have "units (- 2) (sum_list (map cnt [jan5, jan6, jan7])) = Finite False (479 / 4)"
    using c by (simp add: units_def pow2_def)
  then show ?thesis
    using a total_is_sum_of_subtotals [OF h1 h2] by simp
qed

text \<open>
  The claim as stated fails: float addition rounds, and the two sums add in different
  orders. For the amounts 0.1 and 0.4 under \<open>Food\<close> and 0.1 under \<open>Travel\<close> the total
  is 0.6000000000000001 and the subtotals 0.5 and 0.1 add up to 0.6.
\<close>

lemma category_keys_rounding:
  "category_key coffee = ''Food''" "category_key bus = ''Travel''" "category_key bread = ''Food''"
  by (simp_all add: coffee_def bus_def bread_def) code_simp+

lemma amounts_rounding:
  "amount coffee = Finite False (3602879701896397 / 36028797018963968)"
  "amount bus = Finite False (3602879701896397 / 36028797018963968)"
  "amount bread = Finite False (3602879701896397 / 9007199254740992)"
  by (simp_all add: coffee_def bus_def bread_def)

lemma float_of_str_tenth:
  "float_of_str ''0.1'' = Inr (Finite False (3602879701896397 / 36028797018963968))"
  "float_of_str ''0.4'' = Inr (Finite False (3602879701896397 / 9007199254740992))"
  by (simp add: float_eval)+

lemma fadd_rounding:
  "fadd (Finite False 0) (Finite False (3602879701896397 / 36028797018963968))
     = Finite False (3602879701896397 / 36028797018963968)"
  "fadd (Finite False (3602879701896397 / 36028797018963968))
        (Finite False (3602879701896397 / 36028797018963968))
     = Finite False (3602879701896397 / 18014398509481984)"
  "fadd (Finite False (3602879701896397 / 18014398509481984))
        (Finite False (3602879701896397 / 9007199254740992))
     = Finite False (1351079888211149 / 2251799813685248)"
  "fadd (Finite False (3602879701896397 / 36028797018963968))
        (Finite False (3602879701896397 / 9007199254740992))
     = Finite False (1 / 2)"
  "fadd (Finite False 0) (Finite False (1 / 2)) = Finite False (1 / 2)"
  "fadd (Finite False (1 / 2)) (Finite False (3602879701896397 / 36028797018963968))
     = Finite False (5404319552844595 / 9007199254740992)"
  by (simp add: float_eval signed_def)+

lemma sort_rounding:
  "sort_key (\<lambda>x. lower (fst x))
     [(''Food'', Finite False (1 / 2)),
      (''Travel'', Finite False (3602879701896397 / 36028797018963968))]
   = [(''Food'', Finite False (1 / 2)),
      (''Travel'', Finite False (3602879701896397 / 36028797018963968))]"
proof -
  have "lower ''Food'' \<le> lower ''Travel''" by code_simp
  then show ?thesis by simp
qed

theorem total_rounding_counterexample:
  "CalculateTotalExpenses [coffee, bus, bread] = Finite False (1351079888211149 / 2251799813685248)
   \<and> CategorizeExpenseReport [coffee, bus, bread]
       = [(''Food'', Finite False (1 / 2)),
          (''Travel'', Finite False (3602879701896397 / 36028797018963968))]
   \<and> sum_subtotals (CategorizeExpenseReport [coffee, bus, bread])
       = Finite False (5404319552844595 / 9007199254740992)
   \<and> \<not> feq (CalculateTotalExpenses [coffee, bus, bread])
            (sum_subtotals (CategorizeExpenseReport [coffee, bus, bread]))
   \<and> (1351079888211149 / 2251799813685248 :: rat)
       \<noteq> 1 / 2 + 3602879701896397 / 36028797018963968"
proof -
  have total: "CalculateTotalExpenses [coffee, bus, bread]
      = Finite False (1351079888211149 / 2251799813685248)"
    by (simp add: total_fold amounts_rounding fadd_rounding del: fadd.simps)
  have "foldl add_to_category [] [coffee, bus, bread]
      = [(''Food'', Finite False (1 / 2)),
         (''Travel'', Finite False (3602879701896397 / 36028797018963968))]"
    by (simp add: add_to_category_def category_keys_rounding dict_get_def amounts_rounding
        fadd_rounding del: fadd.simps)
  then have report: "CategorizeExpenseReport [coffee, bus, bread]
      = [(''Food'', Finite False (1 / 2)),
         (''Travel'', Finite False (3602879701896397 / 36028797018963968))]"
    by (simp only: report_sorted_totals sort_rounding)
  have sub: "sum_subtotals (CategorizeExpenseReport [coffee, bus, bread])
      = Finite False (5404319552844595 / 9007199254740992)"
    unfolding report by (simp add: sum_subtotals_def fadd_rounding del: fadd.simps)
  show ?thesis
    using total report sub by (simp add: signed_def)
qed

section \<open>The round trip through a row\<close>

























end
